theory Spec2Isabelle
  imports Main "HOL-Library.Sublist"
begin

section \<open>Data model\<close>

text \<open>
  The content scripts work on JSON documents read from the data directory. A string is
  modelled as a list of 8-bit characters (the bytes of the UTF-8 text); the character
  classes of the regular expressions and of \<open>trim\<close> are modelled on ASCII, which is
  exact on ASCII text. A property that a JSON object may lack is an \<open>option\<close>:
  \<open>None\<close> is JavaScript's \<open>undefined\<close> (for \<open>doi\<close> also \<open>null\<close>, which
  the scripts write there and test like \<open>undefined\<close>).
\<close>

datatype jsnum = Num int | NaN

record publication =
  pub_id :: "string option"
  title :: "string option"
  authors :: "string list option"
  journal :: "string option"
  year :: "jsnum option"
  doi :: "string option"
  abstract :: "string option"
  pub_image :: "string option"
  pub_type :: "string option"
  status :: "string option"
  awards :: "string list option"

record statistics =
  total_publications :: nat
  publications_by_year :: "string \<rightharpoonup> nat"
  publications_by_status :: "string \<rightharpoonup> nat"
  publications_by_type :: "string \<rightharpoonup> nat"
  latest_publication :: "publication option"
  collaboration_network :: "string list"
  last_updated :: string

record publicationsData =
  publications :: "publication list"
  statistics :: statistics

section \<open>Strings and numbers of the JavaScript runtime\<close>

text \<open>
  The built-in string operations the scripts call, on ASCII text: the white space skipped
  by \<open>trim\<close>, \<open>parseInt\<close> and the regular expressions' \<open>\s\<close>, the class
  \<open>\w\<close>, \<open>toLowerCase\<close>, \<open>startsWith\<close> (\<open>prefix\<close>), \<open>includes\<close> (\<open>strIncludes\<close>),
  \<open>split\<close> with a non-empty separator, \<open>join\<close>, the decimal text of an integer,
  and \<open>parseInt\<close> without a radix (an integer is kept exactly; the runtime rounds
  beyond 2^53).
\<close>

definition isSpace :: "char \<Rightarrow> bool" where
  "isSpace c \<longleftrightarrow> c \<in> set [CHR 0x09, CHR 0x0A, CHR 0x0B, CHR 0x0C, CHR 0x0D, CHR 0x20]"

definition isDigit :: "char \<Rightarrow> bool" where
  "isDigit c \<longleftrightarrow> (48::nat) \<le> of_char c \<and> of_char c \<le> (57::nat)"

definition isWordChar :: "char \<Rightarrow> bool" where
  "isWordChar c \<longleftrightarrow> isDigit c
     \<or> ((65::nat) \<le> of_char c \<and> of_char c \<le> (90::nat))
     \<or> ((97::nat) \<le> of_char c \<and> of_char c \<le> (122::nat))
     \<or> c = CHR ''_''"

definition lowerChar :: "char \<Rightarrow> char" where
  "lowerChar c =
     (case map_of (zip ''ABCDEFGHIJKLMNOPQRSTUVWXYZ'' ''abcdefghijklmnopqrstuvwxyz'') c of
        Some l \<Rightarrow> l
      | None \<Rightarrow> c)"

definition toLowerCase :: "string \<Rightarrow> string" where
  "toLowerCase s = map lowerChar s"

definition trim :: "string \<Rightarrow> string" where
  "trim s = rev (dropWhile isSpace (rev (dropWhile isSpace s)))"

fun strIncludes :: "string \<Rightarrow> string \<Rightarrow> bool" where
  "strIncludes [] sub = (sub = [])"
| "strIncludes (c # cs) sub = (prefix sub (c # cs) \<or> strIncludes cs sub)"

text \<open>
  \<open>splitGo sep skip acc s\<close> scans \<open>s\<close>: \<open>acc\<close> holds the current piece reversed,
  \<open>skip\<close> counts the characters of a separator just found that are still to be passed.
\<close>

fun splitGo :: "string \<Rightarrow> nat \<Rightarrow> string \<Rightarrow> string \<Rightarrow> string list" where
  "splitGo sep skip acc [] = [rev acc]"
| "splitGo sep skip acc (c # cs) =
     (if 0 < skip then splitGo sep (skip - 1) acc cs
      else if prefix sep (c # cs) then rev acc # splitGo sep (length sep - 1) [] cs
      else splitGo sep 0 (c # acc) cs)"

definition splitOn :: "string \<Rightarrow> string \<Rightarrow> string list" where
  "splitOn s sep = splitGo sep 0 [] s"

fun join :: "string list \<Rightarrow> string \<Rightarrow> string" where
  "join [] sep = []"
| "join [x] sep = x"
| "join (x # y # ys) sep = x @ sep @ join (y # ys) sep"

fun showNat :: "nat \<Rightarrow> string" where
  "showNat n = (if n < 10 then [''0123456789'' ! n]
                else showNat (n div 10) @ [''0123456789'' ! (n mod 10)])"

declare showNat.simps [simp del]

definition showInt :: "int \<Rightarrow> string" where
  "showInt i = (if i < 0 then CHR ''-'' # showNat (nat (- i)) else showNat (nat i))"

definition digitValue :: "char \<Rightarrow> nat option" where
  "digitValue c =
     (if isDigit c then Some (of_char c - 48)
      else if (97::nat) \<le> of_char c \<and> of_char c \<le> (122::nat) then Some (of_char c - 87)
      else if (65::nat) \<le> of_char c \<and> of_char c \<le> (90::nat) then Some (of_char c - 55)
      else None)"

definition isRadixDigit :: "nat \<Rightarrow> char \<Rightarrow> bool" where
  "isRadixDigit R c = (case digitValue c of Some d \<Rightarrow> d < R | None \<Rightarrow> False)"

definition radixValue :: "nat \<Rightarrow> string \<Rightarrow> nat" where
  "radixValue R Z = foldl (\<lambda>a c. a * R + (case digitValue c of Some d \<Rightarrow> d | None \<Rightarrow> 0)) 0 Z"

definition parseInt :: "string \<Rightarrow> jsnum" where
  "parseInt s =
     (let S = dropWhile isSpace s;
          sign = (if prefix ''-'' S then - 1 else 1 :: int);
          S1 = (if prefix ''-'' S \<or> prefix ''+'' S then drop 1 S else S);
          hex = (prefix ''0x'' S1 \<or> prefix ''0X'' S1);
          R = (if hex then 16 else 10);
          S2 = (if hex then drop 2 S1 else S1);
          Z = takeWhile (isRadixDigit R) S2
      in if Z = [] then NaN else Num (sign * int (radixValue R Z)))"

text \<open>The truth value of a number, and \<open>x || d\<close> on a string.\<close>

fun truthyNum :: "jsnum option \<Rightarrow> bool" where
  "truthyNum (Some (Num n)) = (n \<noteq> 0)"
| "truthyNum (Some NaN) = False"
| "truthyNum None = False"

definition strOr :: "string \<Rightarrow> string \<Rightarrow> string" where
  "strOr s d = (if s = [] then d else s)"

section \<open>Merging BibTeX publications: \<open>updatePublicationsFromSources\<close>\<close>

text \<open>
  The body of the \<open>forEach\<close> of \<open>updatePublicationsFromSources\<close>
  (academic-integration.js, lines 134-140): \<open>find\<close> looks the incoming id up in the
  collection merged so far, and the record is pushed only when nothing is found.
\<close>

definition mergeStep :: "publication list \<Rightarrow> publication \<Rightarrow> publication list" where
  "mergeStep mergedPublications bibPub =
     (case List.find (\<lambda>pub. pub_id pub = pub_id bibPub) mergedPublications of
        None \<Rightarrow> mergedPublications @ [bibPub]
      | Some found \<Rightarrow> mergedPublications)"

definition mergePublications :: "publication list \<Rightarrow> publication list \<Rightarrow> publication list" where
  "mergePublications current bibtexPublications = foldl mergeStep current bibtexPublications"

text \<open>
  \<open>updatePublicationsFromSources\<close>: \<open>bibtexPublications\<close> is what \<open>parseBibtexFile\<close>
  returned (\<open>None\<close> for \<open>null\<close>), \<open>currentData\<close> the parsed publications.json
  (\<open>None\<close> when reading or parsing it throws), \<open>today\<close> the date string of
  \<open>new Date().toISOString().split('T')[0]\<close>. The result is the document written back
  to publications.json; \<open>None\<close> when nothing is written.
\<close>

definition updatePublicationsFromSources ::
  "string \<Rightarrow> publication list option \<Rightarrow> publicationsData option \<Rightarrow> publicationsData option" where
  "updatePublicationsFromSources today bibtexPublications currentData =
     (case bibtexPublications of
        None \<Rightarrow> None
      | Some bibs \<Rightarrow>
          (case currentData of
             None \<Rightarrow> None
           | Some cur \<Rightarrow>
               let mergedPublications = mergePublications (publications cur) bibs
               in Some (cur\<lparr>publications := mergedPublications,
                             statistics := (statistics cur)
                               \<lparr>total_publications := length mergedPublications,
                                last_updated := today\<rparr>\<rparr>)))"

section \<open>The interactive editor: \<open>addPublication\<close>\<close>

text \<open>
  The lines the operator types at the nine prompts of \<open>addPublication\<close>;
  \<open>prompt\<close> resolves with the trimmed line.
\<close>

record pubAnswers =
  ans_id :: string
  ans_title :: string
  ans_authors :: string
  ans_journal :: string
  ans_year :: string
  ans_doi :: string
  ans_abstract :: string
  ans_type :: string
  ans_status :: string

definition prompt :: "string \<Rightarrow> string" where
  "prompt answer = trim answer"

text \<open>The object \<open>pub\<close> built from the answers (editor script, lines 69-79).\<close>

definition newPublication :: "pubAnswers \<Rightarrow> publication" where
  "newPublication a =
     \<lparr>pub_id = Some (prompt (ans_id a)),
      title = Some (prompt (ans_title a)),
      authors = Some (map trim (splitOn (prompt (ans_authors a)) '','')),
      journal = Some (prompt (ans_journal a)),
      year = Some (parseInt (prompt (ans_year a))),
      doi = (if prompt (ans_doi a) = [] then None else Some (prompt (ans_doi a))),
      abstract = Some (prompt (ans_abstract a)),
      pub_image = None,
      pub_type = Some (strOr (prompt (ans_type a)) ''journal''),
      status = Some (strOr (prompt (ans_status a)) ''published''),
      awards = None\<rparr>"

text \<open>
  \<open>addPublication\<close>: \<open>loaded\<close> is what \<open>loadAndDisplayData('publications.json')\<close>
  returned (\<open>None\<close> for \<open>null\<close>, on which the function returns at once). The result
  is the document handed to \<open>saveData\<close>.
\<close>

definition addPublication ::
  "string \<Rightarrow> pubAnswers \<Rightarrow> publicationsData option \<Rightarrow> publicationsData option" where
  "addPublication today a loaded =
     (case loaded of
        None \<Rightarrow> None
      | Some publicationsData \<Rightarrow>
          let pubs = newPublication a # publications publicationsData
          in Some (publicationsData\<lparr>publications := pubs,
                     statistics := (statistics publicationsData)
                       \<lparr>total_publications := length pubs, last_updated := today\<rparr>\<rparr>))"

section \<open>Academic metrics: \<open>generateAcademicMetrics\<close>\<close>

text \<open>
  The keys under which a publication is counted: the property name JavaScript makes of
  \<open>pub.year\<close>, \<open>pub.status\<close> and \<open>pub.type\<close>. \<open>increment\<close> is
  \<open>m[k] = (m[k] || 0) + 1\<close> on a counter object (keys that name a property of
  \<open>Object.prototype\<close> are outside the model), \<open>gtNum\<close> is \<open>>\<close> on two
  years (false when one of them is \<open>NaN\<close> or \<open>undefined\<close>).
\<close>

definition keyOfNum :: "jsnum option \<Rightarrow> string" where
  "keyOfNum y = (case y of None \<Rightarrow> ''undefined'' | Some NaN \<Rightarrow> ''NaN'' | Some (Num n) \<Rightarrow> showInt n)"

definition keyOfStr :: "string option \<Rightarrow> string" where
  "keyOfStr s = (case s of None \<Rightarrow> ''undefined'' | Some t \<Rightarrow> t)"

definition increment :: "(string \<rightharpoonup> nat) \<Rightarrow> string \<Rightarrow> (string \<rightharpoonup> nat)" where
  "increment counts key =
     counts(key \<mapsto> (case counts key of None \<Rightarrow> 0 | Some n \<Rightarrow> n) + 1)"

fun gtNum :: "jsnum option \<Rightarrow> jsnum option \<Rightarrow> bool" where
  "gtNum (Some (Num a)) (Some (Num b)) = (a > b)"
| "gtNum _ _ = False"

text \<open>The body of the grouping \<open>forEach\<close> (lines 283-292).\<close>

definition groupStep :: "statistics \<Rightarrow> publication \<Rightarrow> statistics" where
  "groupStep metrics pub =
     metrics\<lparr>publications_by_year := increment (publications_by_year metrics) (keyOfNum (year pub)),
             publications_by_status := increment (publications_by_status metrics) (keyOfStr (status pub)),
             publications_by_type := increment (publications_by_type metrics) (keyOfStr (pub_type pub))\<rparr>"

text \<open>
  The latest publication (lines 295-300): \<open>reduce\<close> without an initial value starts
  from the first published record and keeps the earlier of two records of equal year.
\<close>

definition latestOf :: "publication list \<Rightarrow> publication option" where
  "latestOf pubs =
     (case filter (\<lambda>pub. status pub = Some ''published'') pubs of
        [] \<Rightarrow> None
      | first # rest \<Rightarrow>
          Some (foldl (\<lambda>latest pub. if gtNum (year pub) (year latest) then pub else latest)
                  first rest))"

text \<open>
  The object \<open>metrics\<close> as it stands after line 300: the counts and the latest
  publication are set, the collaboration network is still empty.
\<close>

definition metricsCounts :: "string \<Rightarrow> publication list \<Rightarrow> statistics" where
  "metricsCounts today pubs =
     (foldl groupStep
        \<lparr>total_publications = length pubs,
         publications_by_year = Map.empty,
         publications_by_status = Map.empty,
         publications_by_type = Map.empty,
         latest_publication = None,
         collaboration_network = [],
         last_updated = today\<rparr> pubs)
     \<lparr>latest_publication := latestOf pubs\<rparr>"

text \<open>
  The collaboration network (lines 303-311). The \<open>Set\<close> keeps its members in the
  order of first insertion; \<open>pub.authors.forEach\<close> throws on a publication without
  \<open>authors\<close>, which is the \<open>None\<close> of \<open>collectCollaborators\<close>.
\<close>

definition isCollaborator :: "string \<Rightarrow> bool" where
  "isCollaborator author \<longleftrightarrow> author \<noteq> ''R Korol'' \<and> \<not> strIncludes author ''Roman''"

definition setAdd :: "string list \<Rightarrow> string \<Rightarrow> string list" where
  "setAdd s a = (if a \<in> set s then s else s @ [a])"

fun collectCollaborators :: "string list \<Rightarrow> publication list \<Rightarrow> string list option" where
  "collectCollaborators collaborators [] = Some collaborators"
| "collectCollaborators collaborators (pub # pubs) =
     (case authors pub of
        None \<Rightarrow> None
      | Some as \<Rightarrow>
          collectCollaborators
            (foldl (\<lambda>s author. if isCollaborator author then setAdd s author else s)
               collaborators as) pubs)"

text \<open>
  \<open>{ ...publicationsData.statistics, ...metrics }\<close>: every key of \<open>metrics\<close>
  replaces the old one.
\<close>

definition spread :: "statistics \<Rightarrow> statistics \<Rightarrow> statistics" where
  "spread old metrics =
     old\<lparr>total_publications := total_publications metrics,
         publications_by_year := publications_by_year metrics,
         publications_by_status := publications_by_status metrics,
         publications_by_type := publications_by_type metrics,
         latest_publication := latest_publication metrics,
         collaboration_network := collaboration_network metrics,
         last_updated := last_updated metrics\<rparr>"

text \<open>
  \<open>generateAcademicMetrics\<close>: \<open>loaded\<close> is the parsed publications.json
  (\<open>None\<close> when reading it throws). The result is the document written back;
  \<open>None\<close> when an exception reaches the \<open>catch\<close> and nothing is written.
\<close>

definition generateAcademicMetrics ::
  "string \<Rightarrow> publicationsData option \<Rightarrow> publicationsData option" where
  "generateAcademicMetrics today loaded =
     (case loaded of
        None \<Rightarrow> None
      | Some publicationsData \<Rightarrow>
          let metrics = metricsCounts today (publications publicationsData)
          in (case collectCollaborators [] (publications publicationsData) of
                None \<Rightarrow> None
              | Some collaborators \<Rightarrow>
                  Some (publicationsData
                    \<lparr>statistics :=
                       spread (statistics publicationsData)
                         (metrics\<lparr>collaboration_network := collaborators\<rparr>)\<rparr>)))"


section \<open>Validation: \<open>validateAcademicData\<close>\<close>

text \<open>
  personal.json, as far as the scripts read it: the validator reads \<open>name\<close> and
  \<open>title\<close>, the structured data also \<open>institution\<close>, the values of
  \<open>social\<close> and \<open>background.education\<close>.
\<close>

record institution =
  inst_name :: "string option"
  inst_url :: "string option"

record education =
  edu_institution :: "string option"
  edu_url :: "string option"

record personalData =
  person_name :: "string option"
  person_title :: "string option"
  person_institution :: "institution option"
  person_social :: "(string \<times> string) list option"
  person_education :: "education list option"

text \<open>
  \<open>truthyStr\<close> is the truth value of a property that holds a string when it is
  there; \<open>yearOutOfRange\<close> is
  \<open>!pub.year || pub.year < 1900 || pub.year > new Date().getFullYear() + 2\<close>.
\<close>

definition truthyStr :: "string option \<Rightarrow> bool" where
  "truthyStr s = (case s of None \<Rightarrow> False | Some t \<Rightarrow> t \<noteq> [])"

definition publicationLabel :: "nat \<Rightarrow> string" where
  "publicationLabel index = ''Publication '' @ showNat (index + 1)"

definition yearOutOfRange :: "int \<Rightarrow> jsnum option \<Rightarrow> bool" where
  "yearOutOfRange currentYear y =
     (case y of
        Some (Num n) \<Rightarrow> n = 0 \<or> n < 1900 \<or> n > currentYear + 2
      | _ \<Rightarrow> True)"

text \<open>The issues one turn of the \<open>forEach\<close> pushes (lines 223-235).\<close>

definition validatePublication :: "int \<Rightarrow> nat \<Rightarrow> publication \<Rightarrow> string list" where
  "validatePublication currentYear index pub =
     (if \<not> truthyStr (title pub) \<or> authors pub = None \<or> authors pub = Some []
      then [publicationLabel index @ '': Missing title or authors''] else [])
     @ (if (case doi pub of None \<Rightarrow> False | Some d \<Rightarrow> d \<noteq> [] \<and> \<not> prefix ''10.'' d)
        then [publicationLabel index @ '': Invalid DOI format''] else [])
     @ (if yearOutOfRange currentYear (year pub)
        then [publicationLabel index @ '': Invalid year''] else [])"

text \<open>
  The duplicate check (lines 238-242). \<open>pub.title.toLowerCase()\<close> throws on a
  publication without a title: \<open>lowerTitles\<close> is then \<open>None\<close>.
\<close>

definition indexOf :: "'a list \<Rightarrow> 'a \<Rightarrow> int" where
  "indexOf xs x = (if x \<in> set xs then int (length (takeWhile (\<lambda>y. y \<noteq> x) xs)) else - 1)"

definition duplicatesOf :: "string list \<Rightarrow> string list" where
  "duplicatesOf titles =
     map snd (filter (\<lambda>(index, title). indexOf titles title \<noteq> int index) (enumerate 0 titles))"

definition lowerTitles :: "publication list \<Rightarrow> string list option" where
  "lowerTitles pubs = those (map (\<lambda>pub. map_option toLowerCase (title pub)) pubs)"

text \<open>
  \<open>validateAcademicData\<close>: \<open>personal\<close> and \<open>loaded\<close> are the parsed
  personal.json and publications.json (\<open>None\<close> when reading throws). Everything runs
  inside one \<open>try\<close>; whatever throws, the issues pushed so far are returned.
\<close>

definition validateAcademicData ::
  "int \<Rightarrow> personalData option \<Rightarrow> publicationsData option \<Rightarrow> string list" where
  "validateAcademicData currentYear personal loaded =
     (case personal of
        None \<Rightarrow> []
      | Some personalData \<Rightarrow>
          let issues1 =
                (if \<not> truthyStr (person_name personalData) \<or> \<not> truthyStr (person_title personalData)
                 then [''Missing required personal information''] else [])
          in (case loaded of
                None \<Rightarrow> issues1
              | Some publicationsData \<Rightarrow>
                  let issues2 = issues1 @ concat (map (\<lambda>(index, pub).
                                   validatePublication currentYear index pub)
                                 (enumerate 0 (publications publicationsData)))
                  in (case lowerTitles (publications publicationsData) of
                        None \<Rightarrow> issues2
                      | Some titles \<Rightarrow>
                          if duplicatesOf titles \<noteq> []
                          then issues2 @ [''Duplicate publications found: ''
                                            @ join (duplicatesOf titles) '', '']
                          else issues2)))"

section \<open>BibTeX extraction: \<open>parseBibtexFile\<close>\<close>

text \<open>
  \<open>findSub sep s\<close> is the text of \<open>s\<close> before the first occurrence of \<open>sep\<close>.
\<close>

fun findSub :: "string \<Rightarrow> string \<Rightarrow> string option" where
  "findSub sep [] = (if sep = [] then Some [] else None)"
| "findSub sep (c # cs) =
     (if prefix sep (c # cs) then Some []
      else map_option (\<lambda>before. c # before) (findSub sep cs))"

text \<open>
  One attempt of \<open>/@(\w+)\{([^,]+),\s*([\s\S]*?)\n\}/\<close> at the start of \<open>s\<close>: the
  three groups and the length of the match. \<open>\w+\<close> and \<open>[^,]+\<close> are followed by a
  character outside their class, so each can only match its longest run. After the
  comma, \<open>\s*\<close> takes all the white space and the lazy group runs up to the first
  \<open>\n}\<close> behind it; only when there is none does the matcher give one newline back
  to \<open>\n}\<close>, with an empty third group.
\<close>

definition matchEntryAt :: "string \<Rightarrow> (string \<times> string \<times> string \<times> nat) option" where
  "matchEntryAt s =
     (if \<not> prefix ''@'' s then None
      else let t1 = drop 1 s;
               type = takeWhile isWordChar t1;
               t2 = dropWhile isWordChar t1
      in if type = [] \<or> \<not> prefix ''{'' t2 then None
      else let t3 = drop 1 t2;
               key = takeWhile (\<lambda>c. c \<noteq> CHR '','') t3;
               t4 = dropWhile (\<lambda>c. c \<noteq> CHR '','') t3
      in if key = [] \<or> t4 = [] then None
      else let t5 = drop 1 t4;
               ws = takeWhile isSpace t5;
               t6 = dropWhile isSpace t5;
               head = 1 + length type + 1 + length key + 1 + length ws
      in (case findSub [CHR 0x0A, CHR ''}''] t6 of
            Some content \<Rightarrow> Some (type, key, content, head + length content + 2)
          | None \<Rightarrow>
              if ws \<noteq> [] \<and> last ws = CHR 0x0A \<and> prefix ''}'' t6
              then Some (type, key, [], head + 1)
              else None))"

text \<open>
  The \<open>while\<close> loop over \<open>entryRegex.exec\<close> (lines 37-61): the search moves one
  character on where no match starts, and passes a match (\<open>skip\<close> counts its
  characters still to be passed) once one is found.
\<close>

fun entriesFrom :: "nat \<Rightarrow> string \<Rightarrow> (string \<times> string \<times> string) list" where
  "entriesFrom skip [] = []"
| "entriesFrom skip (c # cs) =
     (if 0 < skip then entriesFrom (skip - 1) cs
      else (case matchEntryAt (c # cs) of
              Some (type, key, content, n) \<Rightarrow> (type, key, content) # entriesFrom (n - 1) cs
            | None \<Rightarrow> entriesFrom 0 cs))"

definition entries :: "string \<Rightarrow> (string \<times> string \<times> string) list" where
  "entries bibtexContent = entriesFrom 0 bibtexContent"

text \<open>
  One attempt of \<open>/(\w+)\s*=\s*\{([^}]*)\}/\<close> at the start of \<open>s\<close>, and the loop
  that stores each match in \<open>fields\<close> (a later field of the same name replaces the
  earlier one).
\<close>

definition matchFieldAt :: "string \<Rightarrow> (string \<times> string \<times> nat) option" where
  "matchFieldAt s =
     (let name = takeWhile isWordChar s;
          t1 = dropWhile isWordChar s;
          ws1 = takeWhile isSpace t1;
          t2 = dropWhile isSpace t1
      in if name = [] \<or> \<not> prefix ''='' t2 then None
      else let t3 = drop 1 t2;
               ws2 = takeWhile isSpace t3;
               t4 = dropWhile isSpace t3
      in if \<not> prefix ''{'' t4 then None
      else let t5 = drop 1 t4;
               val = takeWhile (\<lambda>c. c \<noteq> CHR ''}'') t5;
               t6 = dropWhile (\<lambda>c. c \<noteq> CHR ''}'') t5
      in if t6 = [] then None
      else Some (name, val,
             length name + length ws1 + 1 + length ws2 + 1 + length val + 1))"

fun fieldsFrom :: "nat \<Rightarrow> (string \<rightharpoonup> string) \<Rightarrow> string \<Rightarrow> (string \<rightharpoonup> string)" where
  "fieldsFrom skip flds [] = flds"
| "fieldsFrom skip flds (c # cs) =
     (if 0 < skip then fieldsFrom (skip - 1) flds cs
      else (case matchFieldAt (c # cs) of
              Some (name, val, n) \<Rightarrow> fieldsFrom (n - 1) (flds(name \<mapsto> val)) cs
            | None \<Rightarrow> fieldsFrom 0 flds cs))"

definition fieldsOf :: "string \<Rightarrow> (string \<rightharpoonup> string)" where
  "fieldsOf content = fieldsFrom 0 Map.empty content"

text \<open>
  \<open>fields.x || d\<close>, and \<open>parseInt(fields.year) || new Date().getFullYear()\<close>
  (\<open>parseInt(undefined)\<close> is \<open>NaN\<close>).
\<close>

definition fieldOr :: "string option \<Rightarrow> string \<Rightarrow> string" where
  "fieldOr v d = (case v of None \<Rightarrow> d | Some s \<Rightarrow> strOr s d)"

definition yearOr :: "string option \<Rightarrow> int \<Rightarrow> jsnum" where
  "yearOr v currentYear =
     (case (case v of None \<Rightarrow> NaN | Some s \<Rightarrow> parseInt s) of
        Num n \<Rightarrow> if n \<noteq> 0 then Num n else Num currentYear
      | NaN \<Rightarrow> Num currentYear)"

text \<open>The body of the entry loop (lines 48-60): the object pushed, if any.\<close>

definition toPublication :: "int \<Rightarrow> string \<times> string \<times> string \<Rightarrow> publication option" where
  "toPublication currentYear entry =
     (case entry of (type, key, content) \<Rightarrow>
        let flds = fieldsOf content
        in if toLowerCase type = ''article'' \<and> truthyStr (flds ''title'')
           then Some
             \<lparr>pub_id = Some key,
              title = flds ''title'',
              authors = Some (if truthyStr (flds ''author'')
                              then splitOn (fieldOr (flds ''author'') []) '' and '' else []),
              journal = Some (fieldOr (flds ''journal'') ''Unknown Journal''),
              year = Some (yearOr (flds ''year'') currentYear),
              doi = (if truthyStr (flds ''doi'') then flds ''doi'' else None),
              abstract = Some (fieldOr (flds ''abstract'') []),
              pub_image = None,
              pub_type = Some ''journal'',
              status = Some ''published'',
              awards = None\<rparr>
           else None)"

text \<open>
  \<open>parseBibtexFile\<close>: \<open>file\<close> is the text of the BibTeX file, \<open>None\<close> when the
  file does not exist or cannot be read (the function then returns \<open>null\<close>).
\<close>

definition parseBibtexFile :: "int \<Rightarrow> string option \<Rightarrow> publication list option" where
  "parseBibtexFile currentYear file =
     (case file of
        None \<Rightarrow> None
      | Some bibtexContent \<Rightarrow> Some (List.map_filter (toPublication currentYear) (entries bibtexContent)))"


section \<open>BibTeX files as they are written\<close>

text \<open>
  The entries of a BibTeX file, to state what \<open>parseBibtexFile\<close> makes of them. An
  entry is written \<open>@type{key,\<close> followed by its fields \<open>name = {value}\<close> and by a
  closing brace at the start of a line. A \<open>bibEntry\<close> is an entry with its layout:
  \<open>entryGap\<close> is the text that stands before the entry, \<open>fieldLead\<close> what stands
  before a field (the comma after the field before it, the line break, the
  indentation), \<open>beforeEq\<close> and \<open>afterEq\<close> the white space around the equals sign,
  and \<open>entryTrail\<close> what stands between the last field and the line break before the
  closing brace. \<open>bibtexText es rest\<close> is the file that holds the entries \<open>es\<close>,
  followed by the text \<open>rest\<close>.
\<close>

record bibField =
  fieldLead :: string
  fieldName :: string
  beforeEq :: string
  afterEq :: string
  fieldValue :: string

record bibEntry =
  entryGap :: string
  entryType :: string
  entryKey :: string
  entryFields :: "bibField list"
  entryTrail :: string

definition fieldCore :: "bibField \<Rightarrow> string" where
  "fieldCore f =
     fieldName f @ beforeEq f @ ''='' @ afterEq f @ ''{'' @ fieldValue f @ ''}''"

definition fieldText :: "bibField \<Rightarrow> string" where
  "fieldText f = fieldLead f @ fieldCore f"

definition entryBody :: "bibEntry \<Rightarrow> string" where
  "entryBody e = concat (map fieldText (entryFields e)) @ entryTrail e"

definition entryText :: "bibEntry \<Rightarrow> string" where
  "entryText e =
     ''@'' @ entryType e @ ''{'' @ entryKey e @ '','' @ entryBody e @ [CHR 0x0A, CHR ''}'']"

definition bibtexText :: "bibEntry list \<Rightarrow> string \<Rightarrow> string" where
  "bibtexText es rest = concat (map (\<lambda>e. entryGap e @ entryText e) es) @ rest"

text \<open>
  What the layout may hold. Between the fields stands filler: any characters but
  letters, digits, the underscore and the closing brace. A field has a name of letters,
  digits and underscores, and a value without a closing brace that does not end in a
  line break. An entry has a type of letters, digits and underscores, a key without a
  comma and at least one field, and the text before it holds no \<open>@\<close>.
\<close>

definition isFiller :: "string \<Rightarrow> bool" where
  "isFiller s = list_all (\<lambda>c. \<not> isWordChar c \<and> c \<noteq> CHR ''}'') s"

definition wellFormedField :: "bibField \<Rightarrow> bool" where
  "wellFormedField f \<longleftrightarrow>
     isFiller (fieldLead f)
     \<and> fieldName f \<noteq> [] \<and> list_all isWordChar (fieldName f)
     \<and> list_all isSpace (beforeEq f) \<and> list_all isSpace (afterEq f)
     \<and> CHR ''}'' \<notin> set (fieldValue f)
     \<and> (fieldValue f = [] \<or> last (fieldValue f) \<noteq> CHR 0x0A)"

definition wellFormedEntry :: "bibEntry \<Rightarrow> bool" where
  "wellFormedEntry e \<longleftrightarrow>
     CHR ''@'' \<notin> set (entryGap e)
     \<and> entryType e \<noteq> [] \<and> list_all isWordChar (entryType e)
     \<and> entryKey e \<noteq> [] \<and> CHR '','' \<notin> set (entryKey e)
     \<and> entryFields e \<noteq> [] \<and> list_all wellFormedField (entryFields e)
     \<and> isFiller (entryTrail e)"

text \<open>
  The value an entry gives a field (the last one, when the name is repeated), the
  entries that become publications, and the candidate publication of an entry with the
  defaults of the specification: no authors, \<open>Unknown Journal\<close>, the current year
  (also for a year that is no number, or 0), no DOI, an empty abstract.
\<close>

definition fieldGiven :: "bibEntry \<Rightarrow> string \<Rightarrow> string option" where
  "fieldGiven e name =
     map_of (rev (map (\<lambda>f. (fieldName f, fieldValue f)) (entryFields e))) name"

definition titledArticle :: "bibEntry \<Rightarrow> bool" where
  "titledArticle e \<longleftrightarrow>
     toLowerCase (entryType e) = ''article''
     \<and> (case fieldGiven e ''title'' of None \<Rightarrow> False | Some t \<Rightarrow> t \<noteq> [])"

definition candidate :: "int \<Rightarrow> bibEntry \<Rightarrow> publication" where
  "candidate currentYear e =
     \<lparr>pub_id = Some (entryKey e),
      title = fieldGiven e ''title'',
      authors = Some (case fieldGiven e ''author'' of
                        None \<Rightarrow> []
                      | Some a \<Rightarrow> if a = [] then [] else splitOn a '' and ''),
      journal = Some (case fieldGiven e ''journal'' of
                        None \<Rightarrow> ''Unknown Journal''
                      | Some j \<Rightarrow> if j = [] then ''Unknown Journal'' else j),
      year = Some (case fieldGiven e ''year'' of
                     None \<Rightarrow> Num currentYear
                   | Some y \<Rightarrow> (case parseInt y of
                                  NaN \<Rightarrow> Num currentYear
                                | Num n \<Rightarrow> if n = 0 then Num currentYear else Num n)),
      doi = (case fieldGiven e ''doi'' of
               None \<Rightarrow> None
             | Some d \<Rightarrow> if d = [] then None else Some d),
      abstract = Some (case fieldGiven e ''abstract'' of None \<Rightarrow> [] | Some a \<Rightarrow> a),
      pub_image = None,
      pub_type = Some ''journal'',
      status = Some ''published'',
      awards = None\<rparr>"

section \<open>Template rendering: \<open>renderTemplate\<close>\<close>

text \<open>
  The values of a parsed JSON document, and \<open>undefined\<close>. An object is the list of
  its properties in order, with distinct names.
\<close>

datatype jsval =
    JUndefined
  | JNull
  | JBool bool
  | JNumber jsnum
  | JString string
  | JArray "jsval list"
  | JObject "(string \<times> jsval) list"

text \<open>
  \<open>obj[prop]\<close> looks first among the own properties of \<open>obj\<close> and then along its
  prototype chain, in the built-in objects of the JavaScript runtime
  (\<open>Object.prototype\<close>, \<open>Array.prototype\<close>, ...). These are not part of the
  repository and they differ from one version of the runtime to the next, so they are a
  parameter of the model. A lookup finds (\<open>found\<close>) a value of the document or a
  primitive value, or a built-in object, which is known by a name. In a \<open>runtime\<close>,
  \<open>inherited rt v p\<close> is \<open>v[p]\<close> for a value \<open>v\<close> without an own property
  \<open>p\<close>, \<open>builtinGet rt b p\<close> is \<open>b[p]\<close> for a built-in object \<open>b\<close>,
  \<open>builtinText rt b\<close> is the text \<open>b\<close> is converted to, and \<open>numberText rt n\<close>
  is the text of a number (the decimal digits, for an integer below 10^21). \<open>None\<close>
  stands for an exception: a getter that throws, an object without a text.
\<close>

datatype found = Data jsval | Builtin string

record runtime =
  inherited :: "jsval \<Rightarrow> string \<Rightarrow> found option"
  builtinGet :: "string \<Rightarrow> string \<Rightarrow> found option"
  builtinText :: "string \<Rightarrow> string option"
  numberText :: "jsnum \<Rightarrow> string"

text \<open>
  JavaScript counts and indexes a string by UTF-16 code units. \<open>units s\<close> lists the
  code units of the text whose UTF-8 bytes are \<open>s\<close>, each as a text of its own: a
  character of one, two or three bytes is one unit; a character of four bytes is two
  units, a high and a low surrogate, and a surrogate, which has no UTF-8 text, is
  written with the three bytes of its code (\<open>unitBytes\<close>).
\<close>

definition unitBytes :: "nat \<Rightarrow> string" where
  "unitBytes u =
     [char_of (224 + u div 4096), char_of (128 + u div 64 mod 64), char_of (128 + u mod 64)]"

definition sixBits :: "string \<Rightarrow> nat \<Rightarrow> nat" where
  "sixBits cs i = (if i < length cs then of_char (cs ! i) mod 64 else 0)"

fun units :: "string \<Rightarrow> string list" where
  "units [] = []"
| "units (c # cs) =
     (if (of_char c :: nat) < 192 then [c] # units cs
      else if (of_char c :: nat) < 224 then (c # take 1 cs) # units (drop 1 cs)
      else if (of_char c :: nat) < 240 then (c # take 2 cs) # units (drop 2 cs)
      else (let v = (of_char c mod 8) * 262144 + sixBits cs 0 * 4096 + sixBits cs 1 * 64
                    + sixBits cs 2 - 65536
            in unitBytes (55296 + v div 1024) # unitBytes (56320 + v mod 1024)
               # units (drop 3 cs)))"

text \<open>
  \<open>own obj prop\<close> is the own property \<open>prop\<close> of a value that is neither
  \<open>undefined\<close> nor \<open>null\<close>, if it has one: the properties of an object, the
  \<open>length\<close> and the elements of an array and of a string (an element under its
  decimal index without leading zeros); a number and a boolean have none.
  \<open>member\<close> is \<open>obj[prop]\<close> on such a value and \<open>getProp\<close> is
  \<open>obj?.[prop]\<close>.
\<close>

definition arrayIndex :: "string \<Rightarrow> nat option" where
  "arrayIndex p =
     (if p \<noteq> [] \<and> list_all isDigit p \<and> (p = ''0'' \<or> \<not> prefix ''0'' p)
      then Some (radixValue 10 p) else None)"

definition element :: "'a list \<Rightarrow> string \<Rightarrow> 'a option" where
  "element xs p =
     (case arrayIndex p of
        Some i \<Rightarrow> if i < length xs then Some (xs ! i) else None
      | None \<Rightarrow> None)"

fun own :: "jsval \<Rightarrow> string \<Rightarrow> jsval option" where
  "own (JObject kvs) p = map_of kvs p"
| "own (JArray xs) p =
     (if p = ''length'' then Some (JNumber (Num (int (length xs)))) else element xs p)"
| "own (JString s) p =
     (if p = ''length'' then Some (JNumber (Num (int (length (units s)))))
      else map_option JString (element (units s) p))"
| "own v p = None"

definition member :: "runtime \<Rightarrow> jsval \<Rightarrow> string \<Rightarrow> found option" where
  "member rt obj prop =
     (case own obj prop of Some v \<Rightarrow> Some (Data v) | None \<Rightarrow> inherited rt obj prop)"

fun getProp :: "runtime \<Rightarrow> found \<Rightarrow> string \<Rightarrow> found option" where
  "getProp rt (Data obj) prop =
     (if obj = JUndefined \<or> obj = JNull then Some (Data JUndefined) else member rt obj prop)"
| "getProp rt (Builtin b) prop = builtinGet rt b prop"

text \<open>
  \<open>props.reduce((obj, prop) => obj?.[prop], data)\<close>: the lookups in turn; an exception
  ends the reduction.
\<close>

fun lookup :: "runtime \<Rightarrow> found \<Rightarrow> string list \<Rightarrow> found option" where
  "lookup rt obj [] = Some obj"
| "lookup rt obj (prop # props) =
     (case getProp rt obj prop of None \<Rightarrow> None | Some v \<Rightarrow> lookup rt v props)"

text \<open>
  The text \<open>String.prototype.replace\<close> makes of the value its callback returns
  (\<open>ToString\<close>). An array is joined with commas, \<open>undefined\<close> and \<open>null\<close> in it
  giving the empty text. An object of the document is converted by the \<open>toString\<close>
  that it inherits, to \<open>[object Object]\<close>; when it has a property of its own named
  \<open>toString\<close>, which is no function, the conversion throws a \<open>TypeError\<close>.
\<close>

fun toStringJS :: "runtime \<Rightarrow> jsval \<Rightarrow> string option" where
  "toStringJS rt JUndefined = Some ''undefined''"
| "toStringJS rt JNull = Some ''null''"
| "toStringJS rt (JBool b) = Some (if b then ''true'' else ''false'')"
| "toStringJS rt (JNumber n) = Some (numberText rt n)"
| "toStringJS rt (JString s) = Some s"
| "toStringJS rt (JArray xs) =
     map_option (\<lambda>parts. join parts '','')
       (those (map (\<lambda>x. if x = JUndefined \<or> x = JNull then Some [] else toStringJS rt x) xs))"
| "toStringJS rt (JObject kvs) =
     (if ''toString'' \<in> fst ` set kvs then None else Some ''[object Object]'')"

fun foundText :: "runtime \<Rightarrow> found \<Rightarrow> string option" where
  "foundText rt (Data v) = toStringJS rt v"
| "foundText rt (Builtin b) = builtinText rt b"

text \<open>
  One attempt of \<open>/\{\{(\w+(?:\.\w+)*)\}\}/\<close> at the start of \<open>s\<close>. The group
  cannot hold a brace, so it is the text between \<open>{{\<close> and the next \<open>}\<close>; it
  matches \<open>\w+(?:\.\w+)*\<close> when its pieces between the dots are non-empty words
  (\<open>isPath\<close>), and \<open>}}\<close> must follow it.
\<close>

definition isPath :: "string list \<Rightarrow> bool" where
  "isPath props \<longleftrightarrow> props \<noteq> [] \<and> list_all (\<lambda>p. p \<noteq> [] \<and> list_all isWordChar p) props"

definition matchPlaceholderAt :: "string \<Rightarrow> string option" where
  "matchPlaceholderAt s =
     (if \<not> prefix ''{{'' s then None
      else let key = takeWhile (\<lambda>c. c \<noteq> CHR ''}'') (drop 2 s);
               rest = dropWhile (\<lambda>c. c \<noteq> CHR ''}'') (drop 2 s)
      in if prefix ''}}'' rest \<and> isPath (splitOn key ''.'') then Some key else None)"

text \<open>
  The callback: \<open>key.split('.').reduce((obj, prop) => obj?.[prop], data)\<close>, and the
  match itself when that is \<open>undefined\<close>; \<open>replace\<close> converts what the callback
  returns to text.
\<close>

definition replacement :: "runtime \<Rightarrow> jsval \<Rightarrow> string \<Rightarrow> string option" where
  "replacement rt data key =
     (case lookup rt (Data data) (splitOn key ''.'') of
        None \<Rightarrow> None
      | Some val \<Rightarrow>
          if val \<noteq> Data JUndefined then foundText rt val else Some (''{{'' @ key @ ''}}''))"

text \<open>
  \<open>template.replace\<close> with the global pattern: text outside a match is copied, a
  match is replaced and passed (\<open>skip\<close> counts its characters still to be passed).
  An exception in one replacement is the exception of the whole call.
\<close>

fun renderFrom :: "runtime \<Rightarrow> jsval \<Rightarrow> nat \<Rightarrow> string \<Rightarrow> string option" where
  "renderFrom rt data skip [] = Some []"
| "renderFrom rt data skip (c # cs) =
     (if 0 < skip then renderFrom rt data (skip - 1) cs
      else (case matchPlaceholderAt (c # cs) of
              Some key \<Rightarrow>
                (case replacement rt data key of
                   None \<Rightarrow> None
                 | Some new \<Rightarrow>
                     map_option (\<lambda>out. new @ out) (renderFrom rt data (length key + 3) cs))
            | None \<Rightarrow> map_option (\<lambda>out. c # out) (renderFrom rt data 0 cs)))"

definition renderTemplate :: "runtime \<Rightarrow> string \<Rightarrow> jsval \<Rightarrow> string option" where
  "renderTemplate rt template data = renderFrom rt data 0 template"

section \<open>JSON text: \<open>JSON.stringify\<close> and \<open>JSON.parse\<close>\<close>

text \<open>
  \<open>stringify\<close> is \<open>JSON.stringify(value, null, 2)\<close>: members and elements on lines
  of their own, indented by two spaces a level; a member whose value is \<open>undefined\<close>
  is left out, \<open>undefined\<close> in an array and \<open>NaN\<close> are written \<open>null\<close>, and
  \<open>undefined\<close> itself has no text. Strings are quoted as \<open>QuoteJSONString\<close> does.
\<close>

definition newline :: string where
  "newline = [CHR 0x0A]"

definition pad :: "nat \<Rightarrow> string" where
  "pad n = replicate n (CHR '' '')"

definition quoteChar :: "char \<Rightarrow> string" where
  "quoteChar c =
     (if c = CHR 0x22 then [CHR 0x5C, CHR 0x22]
      else if c = CHR 0x5C then [CHR 0x5C, CHR 0x5C]
      else if c = CHR 0x08 then [CHR 0x5C, CHR ''b'']
      else if c = CHR 0x0C then [CHR 0x5C, CHR ''f'']
      else if c = CHR 0x0A then [CHR 0x5C, CHR ''n'']
      else if c = CHR 0x0D then [CHR 0x5C, CHR ''r'']
      else if c = CHR 0x09 then [CHR 0x5C, CHR ''t'']
      else if (of_char c :: nat) < 32
        then [CHR 0x5C, CHR ''u'', CHR ''0'', CHR ''0'',
              ''0123456789abcdef'' ! (of_char c div 16), ''0123456789abcdef'' ! (of_char c mod 16)]
      else [c])"

definition quoteJSON :: "string \<Rightarrow> string" where
  "quoteJSON s = CHR 0x22 # concat (map quoteChar s) @ [CHR 0x22]"

definition wrap :: "string \<Rightarrow> string \<Rightarrow> nat \<Rightarrow> string list \<Rightarrow> string" where
  "wrap opening closing ind parts =
     (if parts = [] then opening @ closing
      else opening @ newline @ pad (ind + 2)
           @ join parts ('','' @ newline @ pad (ind + 2))
           @ newline @ pad ind @ closing)"

fun serialize :: "nat \<Rightarrow> jsval \<Rightarrow> string option" where
  "serialize ind JUndefined = None"
| "serialize ind JNull = Some ''null''"
| "serialize ind (JBool b) = Some (if b then ''true'' else ''false'')"
| "serialize ind (JNumber n) = Some (case n of Num i \<Rightarrow> showInt i | NaN \<Rightarrow> ''null'')"
| "serialize ind (JString s) = Some (quoteJSON s)"
| "serialize ind (JArray xs) =
     Some (wrap ''['' '']'' ind
       (map (\<lambda>x. case serialize (ind + 2) x of None \<Rightarrow> ''null'' | Some t \<Rightarrow> t) xs))"
| "serialize ind (JObject kvs) =
     Some (wrap ''{'' ''}'' ind
       (concat (map (\<lambda>(k, v). case serialize (ind + 2) v of
                                 None \<Rightarrow> []
                               | Some t \<Rightarrow> [quoteJSON k @ '': '' @ t]) kvs)))"

definition stringify :: "jsval \<Rightarrow> string option" where
  "stringify v = serialize 0 v"

text \<open>
  \<open>parseJSON\<close> is \<open>JSON.parse\<close> on the values of the model: numbers are
  integers (a fraction or an exponent is outside the model and read as an error, as is
  the escape of a surrogate code unit). White space is skipped between tokens, an escape
  above \<open>\u007f\<close> is stored as its UTF-8 bytes, and the members of an object are
  created one by one (\<open>objSet\<close>): a repeated name replaces the value in place, a
  name that is an array index goes before the other names in ascending order, any other
  name goes last. The fuel of the three mutually recursive functions is the length of
  the text, which bounds the nesting.
\<close>

definition isJsonSpace :: "char \<Rightarrow> bool" where
  "isJsonSpace c \<longleftrightarrow> c = CHR 0x20 \<or> c = CHR 0x09 \<or> c = CHR 0x0A \<or> c = CHR 0x0D"

definition skipWs :: "string \<Rightarrow> string" where
  "skipWs s = dropWhile isJsonSpace s"

definition utf8 :: "nat \<Rightarrow> string option" where
  "utf8 cp =
     (if cp < 128 then Some [char_of cp]
      else if cp < 2048 then Some [char_of (192 + cp div 64), char_of (128 + cp mod 64)]
      else if 55296 \<le> cp \<and> cp < 57344 then None
      else Some [char_of (224 + cp div 4096), char_of (128 + cp div 64 mod 64),
                 char_of (128 + cp mod 64)])"

definition unescape :: "char \<Rightarrow> char option" where
  "unescape e =
     (if e = CHR 0x22 \<or> e = CHR 0x5C \<or> e = CHR ''/'' then Some e
      else if e = CHR ''b'' then Some (CHR 0x08)
      else if e = CHR ''f'' then Some (CHR 0x0C)
      else if e = CHR ''n'' then Some (CHR 0x0A)
      else if e = CHR ''r'' then Some (CHR 0x0D)
      else if e = CHR ''t'' then Some (CHR 0x09)
      else None)"

fun parseString :: "string \<Rightarrow> (string \<times> string) option" where
  "parseString [] = None"
| "parseString (c # cs) =
     (if c = CHR 0x22 then Some ([], cs)
      else if c = CHR 0x5C then
        (if prefix ''u'' cs then
           (let hex = take 4 (drop 1 cs)
            in if length hex = 4 \<and> list_all (isRadixDigit 16) hex
               then (case utf8 (radixValue 16 hex) of
                       None \<Rightarrow> None
                     | Some bytes \<Rightarrow>
                         map_option (\<lambda>(s, r). (bytes @ s, r)) (parseString (drop 5 cs)))
               else None)
         else (case cs of
                 [] \<Rightarrow> None
               | e # cs' \<Rightarrow>
                   (case unescape e of
                      None \<Rightarrow> None
                    | Some d \<Rightarrow> map_option (\<lambda>(s, r). (d # s, r)) (parseString cs'))))
      else if (of_char c :: nat) < 32 then None
      else map_option (\<lambda>(s, r). (c # s, r)) (parseString cs))"

definition parseNumber :: "string \<Rightarrow> (jsval \<times> string) option" where
  "parseNumber s =
     (let negative = prefix ''-'' s;
          s1 = (if negative then drop 1 s else s);
          digits = takeWhile isDigit s1;
          rest = dropWhile isDigit s1
      in if digits = [] then None
         else if 1 < length digits \<and> prefix ''0'' digits then None
         else if prefix ''.'' rest \<or> prefix ''e'' rest \<or> prefix ''E'' rest then None
         else Some (JNumber (Num ((if negative then - 1 else 1) * int (radixValue 10 digits))),
                    rest))"

definition isIndexKey :: "string \<Rightarrow> bool" where
  "isIndexKey k = (case arrayIndex k of Some n \<Rightarrow> n < 4294967295 | None \<Rightarrow> False)"

fun insertIndexed :: "string \<Rightarrow> jsval \<Rightarrow> (string \<times> jsval) list \<Rightarrow> (string \<times> jsval) list" where
  "insertIndexed k v [] = [(k, v)]"
| "insertIndexed k v ((k', v') # kvs) =
     (if isIndexKey k' \<and> radixValue 10 k' < radixValue 10 k
      then (k', v') # insertIndexed k v kvs
      else (k, v) # (k', v') # kvs)"

definition objSet :: "(string \<times> jsval) list \<Rightarrow> string \<Rightarrow> jsval \<Rightarrow> (string \<times> jsval) list" where
  "objSet obj k v =
     (if k \<in> fst ` set obj then map (\<lambda>(k', v'). if k' = k then (k', v) else (k', v')) obj
      else if isIndexKey k then insertIndexed k v obj
      else obj @ [(k, v)])"

fun parseValue :: "nat \<Rightarrow> string \<Rightarrow> (jsval \<times> string) option"
  and parseElements :: "nat \<Rightarrow> string \<Rightarrow> (jsval list \<times> string) option"
  and parseMembers ::
    "nat \<Rightarrow> (string \<times> jsval) list \<Rightarrow> string \<Rightarrow> ((string \<times> jsval) list \<times> string) option"
where
  "parseValue 0 s = None"
| "parseValue (Suc fuel) s =
     (if prefix ''null'' s then Some (JNull, drop 4 s)
      else if prefix ''true'' s then Some (JBool True, drop 4 s)
      else if prefix ''false'' s then Some (JBool False, drop 5 s)
      else if prefix [CHR 0x22] s then
        map_option (\<lambda>(t, r). (JString t, r)) (parseString (drop 1 s))
      else if prefix ''['' s then
        (let s1 = skipWs (drop 1 s)
         in if prefix '']'' s1 then Some (JArray [], drop 1 s1)
            else map_option (\<lambda>(xs, r). (JArray xs, r)) (parseElements fuel s1))
      else if prefix ''{'' s then
        (let s1 = skipWs (drop 1 s)
         in if prefix ''}'' s1 then Some (JObject [], drop 1 s1)
            else map_option (\<lambda>(kvs, r). (JObject kvs, r)) (parseMembers fuel [] s1))
      else parseNumber s)"
| "parseElements 0 s = None"
| "parseElements (Suc fuel) s =
     (case parseValue fuel s of
        None \<Rightarrow> None
      | Some (v, r) \<Rightarrow>
          let r1 = skipWs r
          in if prefix '','' r1 then
               map_option (\<lambda>(vs, r2). (v # vs, r2)) (parseElements fuel (skipWs (drop 1 r1)))
             else if prefix '']'' r1 then Some ([v], drop 1 r1)
             else None)"
| "parseMembers 0 obj s = None"
| "parseMembers (Suc fuel) obj s =
     (if \<not> prefix [CHR 0x22] s then None
      else (case parseString (drop 1 s) of
              None \<Rightarrow> None
            | Some (k, r) \<Rightarrow>
                let r1 = skipWs r
                in if \<not> prefix '':'' r1 then None
                   else (case parseValue fuel (skipWs (drop 1 r1)) of
                           None \<Rightarrow> None
                         | Some (v, r2) \<Rightarrow>
                             let r3 = skipWs r2
                             in if prefix '','' r3 then
                                  parseMembers fuel (objSet obj k v) (skipWs (drop 1 r3))
                                else if prefix ''}'' r3 then Some (objSet obj k v, drop 1 r3)
                                else None)))"

definition parseJSON :: "string \<Rightarrow> jsval option" where
  "parseJSON input =
     (case parseValue (length input) (skipWs input) of
        None \<Rightarrow> None
      | Some (v, r) \<Rightarrow> if skipWs r = [] then Some v else None)"

text \<open>
  The values a JSON text stands for: no \<open>undefined\<close>, no \<open>NaN\<close>, integers that a
  JavaScript number holds exactly, and objects whose properties stand in the order in
  which \<open>objSet\<close> would create them.
\<close>

fun isJSON :: "jsval \<Rightarrow> bool" where
  "isJSON JUndefined = False"
| "isJSON JNull = True"
| "isJSON (JBool b) = True"
| "isJSON (JNumber n) = (case n of Num i \<Rightarrow> \<bar>i\<bar> \<le> 9007199254740991 | NaN \<Rightarrow> False)"
| "isJSON (JString s) = True"
| "isJSON (JArray xs) = list_all isJSON xs"
| "isJSON (JObject kvs) =
     (list_all (\<lambda>(k, v). isJSON v) kvs \<and> foldl (\<lambda>obj (k, v). objSet obj k v) [] kvs = kvs)"

section \<open>The data store: \<open>saveData\<close>, \<open>loadData\<close>, \<open>loadAndDisplayData\<close>\<close>

text \<open>
  The files of the data directory: their contents by path, and the paths on which
  \<open>writeFileSync\<close> throws. \<open>filepath\<close> is \<open>path.join(CONFIG.dataDir, filename)\<close>
  for a plain file name; both scripts compute \<open>CONFIG.dataDir\<close> by the same expression.
\<close>

record fileSystem =
  contents :: "string \<rightharpoonup> string"
  writeFails :: "string \<Rightarrow> bool"

definition filepath :: "string \<Rightarrow> string \<Rightarrow> string" where
  "filepath dataDir filename = dataDir @ ''/'' @ filename"

text \<open>
  \<open>saveData\<close> (editor script, lines 50-60): the value returned and the files after
  the call. \<open>writeFileSync\<close> throws when it is given \<open>undefined\<close>; every exception is
  caught and turned into \<open>false\<close>.
\<close>

definition saveData :: "string \<Rightarrow> fileSystem \<Rightarrow> string \<Rightarrow> jsval \<Rightarrow> bool \<times> fileSystem" where
  "saveData dataDir fs filename data =
     (case stringify data of
        None \<Rightarrow> (False, fs)
      | Some out \<Rightarrow>
          if writeFails fs (filepath dataDir filename) then (False, fs)
          else (True, fs\<lparr>contents := (contents fs)(filepath dataDir filename \<mapsto> out)\<rparr>))"

text \<open>
  \<open>loadData\<close> (generator script, lines 22-31) and \<open>loadAndDisplayData\<close> (editor
  script, lines 34-45): the parsed file, or \<open>null\<close> when reading or parsing throws.
\<close>

definition loadData :: "string \<Rightarrow> fileSystem \<Rightarrow> string \<Rightarrow> jsval" where
  "loadData dataDir fs filename =
     (case contents fs (filepath dataDir filename) of
        None \<Rightarrow> JNull
      | Some data \<Rightarrow> (case parseJSON data of None \<Rightarrow> JNull | Some v \<Rightarrow> v))"

definition loadAndDisplayData :: "string \<Rightarrow> fileSystem \<Rightarrow> string \<Rightarrow> jsval" where
  "loadAndDisplayData dataDir fs filename =
     (case contents fs (filepath dataDir filename) of
        None \<Rightarrow> JNull
      | Some raw \<Rightarrow> (case parseJSON raw of None \<Rightarrow> JNull | Some data \<Rightarrow> data))"

section \<open>Content generation: the render functions\<close>

text \<open>
  What a render function can read besides its arguments: the clock (\<open>currentDate\<close> is
  \<open>new Date().toISOString().split('T')[0]\<close>) and the runtime's date formatting in
  the time zone of the process (\<open>toLocaleDateString env d\<close> is
  \<open>new Date(d).toLocaleDateString('en-US', {year: 'numeric', month: 'long', day:
  'numeric'})\<close>). Every render function takes the environment as its first argument.
\<close>

record environment =
  currentDate :: string
  toLocaleDateString :: "string option \<Rightarrow> string"

record newsItem =
  news_title :: "string option"
  news_date :: "string option"
  news_category :: "string option"
  news_summary :: "string option"
  news_content :: "string option"
  news_images :: "string list option"
  news_featured :: "bool option"
  news_tags :: "string list option"

record resourceLink =
  link_url :: "string option"
  link_title :: "string option"
  link_provider :: "string option"

record resource =
  resource_title :: "string option"
  resource_description :: "string option"
  resource_links :: "resourceLink list option"

record resourceSection =
  section_title :: "string option"
  section_description :: "string option"
  section_resources :: "resource list option"

record activity =
  activity_title :: "string option"
  activity_description :: "string option"
  activity_image :: "string option"
  activity_date :: "string option"
  activity_location :: "string option"

record activitySection =
  activities_id :: "string option"
  activities_title :: "string option"
  activities_description :: "string option"
  activities :: "activity list option"

record page =
  page_url :: string
  page_changefreq :: string
  page_priority :: string

definition baseUrl :: string where
  "baseUrl = ''https://romankorol.com''"

text \<open>
  \<open>s.replace(pattern, replacement)\<close> with a string pattern, for a replacement
  without \<open>$\<close>: the first occurrence is replaced.
\<close>

fun replaceFirst :: "string \<Rightarrow> string \<Rightarrow> string \<Rightarrow> string" where
  "replaceFirst [] pat new = (if pat = [] then new else [])"
| "replaceFirst (c # cs) pat new =
     (if prefix pat (c # cs) then new @ drop (length pat) (c # cs)
      else c # replaceFirst cs pat new)"

text \<open>
  The template literals of the generator script, line by line. A property that is
  missing prints as \<open>undefined\<close> (\<open>keyOfStr\<close>, \<open>keyOfNum\<close>); \<open>None\<close> as a
  result is the \<open>TypeError\<close> of calling \<open>join\<close> or \<open>map\<close> on a missing array.
\<close>

definition generatePublicationHTML :: "environment \<Rightarrow> publication \<Rightarrow> string option" where
  \<open>generatePublicationHTML env pub =
     (case authors pub of
        None \<Rightarrow> None
      | Some names \<Rightarrow>
          let authorsStr = replaceFirst (join names '', '') ''R Korol'' ''<b>R Korol</b>'';
              awardsHtml =
                (case awards pub of
                   None \<Rightarrow> []
                 | Some given \<Rightarrow>
                     join (map (\<lambda>award.
                           ''<span class="award">''
                           @ award
                           @ ''</span>'') given) '' '')
          in Some
              (''\<newline>''
              @ ''    <div class="publication" data-year="''
              @ keyOfNum (year pub)
              @ ''" data-status="''
              @ keyOfStr (status pub)
              @ ''">\<newline>''
              @ ''        <div id="''
              @ keyOfStr (pub_id pub)
              @ ''" class="hidden">\<newline>''
              @ ''            ''
              @ authorsStr
              @ '' <i>''
              @ keyOfStr (journal pub)
              @ ''</i> <b>''
              @ keyOfNum (year pub)
              @ ''</b>\<newline>''
              @ ''            ''
              @ (if truthyStr (doi pub)
                 then ''<a href="https://doi.org/''
                @ keyOfStr (doi pub)
                @ ''">''
                @ keyOfStr (doi pub)
                @ ''</a>''
                 else [])
              @ ''\<newline>''
              @ ''            ''
              @ awardsHtml
              @ ''\<newline>''
              @ ''            <a class="image left">\<newline>''
              @ ''                <img class="myBtn_multi" src="''
              @ keyOfStr (pub_image pub)
              @ ''"\<newline>''
              @ ''                     alt="Publication thumbnail for ''
              @ keyOfStr (title pub)
              @ ''"\<newline>''
              @ ''                     title="''
              @ keyOfStr (title pub)
              @ ''">\<newline>''
              @ ''            </a>\<newline>''
              @ ''            <div class="modal modal_multi">\<newline>''
              @ ''                <span class="close close_multi">''
              @ [CHR 0xE2, CHR 0x88, CHR 0x9A, CHR 0xC3, CHR 0xB3]
              @ ''</span>\<newline>''
              @ ''                <img class="modal-content" src="''
              @ keyOfStr (pub_image pub)
              @ ''"\<newline>''
              @ ''                     alt="Research figure: ''
              @ keyOfStr (title pub)
              @ ''">\<newline>''
              @ ''            </div>\<newline>''
              @ ''            <p>''
              @ keyOfStr (abstract pub)
              @ ''</p>\<newline>''
              @ ''        </div>\<newline>''
              @ ''    </div>''))\<close>

definition generateNewsHTML :: "environment \<Rightarrow> newsItem \<Rightarrow> string" where
  \<open>generateNewsHTML env item =
     (let dateFormatted = toLocaleDateString env (news_date item);
          imagesHtml =
            (case news_images item of
               None \<Rightarrow> []
             | Some imgs \<Rightarrow>
                 join (map (\<lambda>img.
                             ''<img class="modal-content" src="''
                             @ img
                             @ ''"\<newline>''
                             @ ''              alt="''
                             @ keyOfStr (news_title item)
                             @ ''" loading="lazy">'') imgs) []);
          tagsHtml =
            (case news_tags item of
               None \<Rightarrow> []
             | Some given \<Rightarrow>
                 join (map (\<lambda>tag.
                             ''<span class="tag">''
                             @ tag
                             @ ''</span>'') given) '' '')
      in ''\<newline>''
          @ ''    <article class="news-item ''
          @ (if news_featured item = Some True then ''featured'' else [])
          @ ''"\<newline>''
          @ ''             data-category="''
          @ keyOfStr (news_category item)
          @ ''">\<newline>''
          @ ''        <header>\<newline>''
          @ ''            <h3>''
          @ keyOfStr (news_title item)
          @ ''</h3>\<newline>''
          @ ''            <div class="date">''
          @ dateFormatted
          @ ''</div>\<newline>''
          @ ''            <div class="category">''
          @ keyOfStr (news_category item)
          @ ''</div>\<newline>''
          @ ''        </header>\<newline>''
          @ ''        <p>''
          @ keyOfStr (news_summary item)
          @ ''</p>\<newline>''
          @ ''        <div class="content">''
          @ keyOfStr (news_content item)
          @ ''</div>\<newline>''
          @ ''        <div class="images">''
          @ imagesHtml
          @ ''</div>\<newline>''
          @ ''        <div class="tags">''
          @ tagsHtml
          @ ''</div>\<newline>''
          @ ''    </article>'')\<close>

definition linkHTML :: "resourceLink \<Rightarrow> string" where
  \<open>linkHTML link =
     ''<li><a href="''
       @ keyOfStr (link_url link)
       @ ''" target="_blank" rel="noopener noreferrer">\<newline>''
       @ ''                <strong>''
       @ keyOfStr (link_title link)
       @ ''</strong></a> - ''
       @ keyOfStr (link_provider link)
       @ ''</li>''\<close>

definition resourceHTML :: "resource \<Rightarrow> string option" where
  \<open>resourceHTML resource =
     (case resource_links resource of
        None \<Rightarrow> None
      | Some given \<Rightarrow>
          let links = join (map linkHTML given) []
          in Some
              (''\<newline>''
              @ ''        <div class="resource">\<newline>''
              @ ''            <h4>''
              @ keyOfStr (resource_title resource)
              @ ''</h4>\<newline>''
              @ ''            <p>''
              @ keyOfStr (resource_description resource)
              @ ''</p>\<newline>''
              @ ''            <ul>''
              @ links
              @ ''</ul>\<newline>''
              @ ''        </div>''))\<close>

definition generateResourceHTML :: "environment \<Rightarrow> resourceSection \<Rightarrow> string option" where
  \<open>generateResourceHTML env section =
     (case section_resources section of
        None \<Rightarrow> None
      | Some given \<Rightarrow>
          (case those (map resourceHTML given) of
             None \<Rightarrow> None
           | Some blocks \<Rightarrow>
               Some
                (''\<newline>''
              @ ''    <section class="resource-section">\<newline>''
              @ ''        <h3>''
              @ keyOfStr (section_title section)
              @ ''</h3>\<newline>''
              @ ''        <p>''
              @ keyOfStr (section_description section)
              @ ''</p>\<newline>''
              @ ''        ''
              @ join blocks []
              @ ''\<newline>''
              @ ''    </section>'')))\<close>

definition activityHTML :: "activity \<Rightarrow> string" where
  \<open>activityHTML activity =
     ''\<newline>''
     @ ''        <div class="activity">\<newline>''
     @ ''            <h4>''
     @ keyOfStr (activity_title activity)
     @ ''</h4>\<newline>''
     @ ''            <p>''
     @ keyOfStr (activity_description activity)
     @ ''</p>\<newline>''
     @ ''            ''
     @ (if truthyStr (activity_image activity)
        then ''<img src="''
       @ keyOfStr (activity_image activity)
       @ ''"\<newline>''
       @ ''                      alt="''
       @ keyOfStr (activity_title activity)
       @ ''"\<newline>''
       @ ''                      class="activity-image" loading="lazy">''
        else [])
     @ ''\<newline>''
     @ ''            <div class="activity-meta">\<newline>''
     @ ''                ''
     @ (if truthyStr (activity_date activity)
        then ''<span class="date">''
       @ keyOfStr (activity_date activity)
       @ ''</span>''
        else [])
     @ ''\<newline>''
     @ ''                ''
     @ (if truthyStr (activity_location activity)
        then ''<span class="location">''
       @ keyOfStr (activity_location activity)
       @ ''</span>''
        else [])
     @ ''\<newline>''
     @ ''            </div>\<newline>''
     @ ''        </div>\<newline>''
     @ ''    ''\<close>

definition generateActivityHTML :: "environment \<Rightarrow> activitySection \<Rightarrow> string option" where
  \<open>generateActivityHTML env section =
     (case activities section of
        None \<Rightarrow> None
      | Some given \<Rightarrow>
          Some
           (''\<newline>''
          @ ''    <section id="''
          @ keyOfStr (activities_id section)
          @ ''" class="activity-section">\<newline>''
          @ ''        <h3>''
          @ keyOfStr (activities_title section)
          @ ''</h3>\<newline>''
          @ ''        <p>''
          @ keyOfStr (activities_description section)
          @ ''</p>\<newline>''
          @ ''        <div class="activities">''
          @ join (map activityHTML given) []
          @ ''</div>\<newline>''
          @ ''    </section>''))\<close>

definition pages :: "page list" where
  "pages =
     [\<lparr>page_url = [], page_changefreq = ''monthly'', page_priority = ''1.0''\<rparr>,
      \<lparr>page_url = ''research.html'', page_changefreq = ''monthly'', page_priority = ''0.9''\<rparr>,
      \<lparr>page_url = ''news.html'', page_changefreq = ''weekly'', page_priority = ''0.8''\<rparr>,
      \<lparr>page_url = ''learn.html'', page_changefreq = ''monthly'', page_priority = ''0.7''\<rparr>,
      \<lparr>page_url = ''activities.html'', page_changefreq = ''monthly'',
        page_priority = ''0.7''\<rparr>]"

definition urlEntry :: "environment \<Rightarrow> page \<Rightarrow> string" where
  \<open>urlEntry env page =
     ''\<newline>''
     @ ''    <url>\<newline>''
     @ ''        <loc>''
     @ baseUrl
     @ ''/''
     @ page_url page
     @ ''</loc>\<newline>''
     @ ''        <changefreq>''
     @ page_changefreq page
     @ ''</changefreq>\<newline>''
     @ ''        <priority>''
     @ page_priority page
     @ ''</priority>\<newline>''
     @ ''        <lastmod>''
     @ currentDate env
     @ ''</lastmod>\<newline>''
     @ ''    </url>''\<close>

definition generateSitemap :: "environment \<Rightarrow> string" where
  \<open>generateSitemap env =
     ''<?xml version="1.0" encoding="UTF-8"?>\<newline>''
     @ ''<urlset xmlns="http://www.sitemaps.org/schemas/sitemap/0.9">\<newline>''
     @ join (map (urlEntry env) pages) []
     @ ''\<newline>''
     @ ''</urlset>''\<close>

text \<open>
  \<open>generateStructuredData\<close> (lines 173-206). \<open>strVal\<close> is the value of a property
  that holds a string when it is there; \<open>credential\<close> is the object built for one
  publication (\<open>pub.year.toString()\<close> throws on a missing year). \<open>publications\<close> is
  the loaded publications document, \<open>None\<close> for \<open>null\<close>.
\<close>

definition strVal :: "string option \<Rightarrow> jsval" where
  "strVal s = (case s of None \<Rightarrow> JUndefined | Some t \<Rightarrow> JString t)"

definition credential :: "publication \<Rightarrow> jsval option" where
  "credential pub =
     (case year pub of
        None \<Rightarrow> None
      | Some y \<Rightarrow>
          Some (JObject
            [(''@type'', JString ''ScholarlyArticle''),
             (''name'', strVal (title pub)),
             (''author'', (case authors pub of
                             None \<Rightarrow> JUndefined
                           | Some names \<Rightarrow> JArray (map JString names))),
             (''datePublished'', JString (keyOfNum (Some y))),
             (''publisher'', strVal (journal pub)),
             (''url'', (if truthyStr (doi pub)
                        then JString (''https://doi.org/'' @ keyOfStr (doi pub))
                        else JUndefined))]))"

definition generateStructuredData ::
  "environment \<Rightarrow> personalData \<Rightarrow> publicationsData option \<Rightarrow> string option" where
  "generateStructuredData env personal publicationsFile =
     (case (person_institution personal, person_social personal, person_education personal) of
        (Some inst, Some social, Some schools) \<Rightarrow>
          let structuredData =
                [(''@context'', JString ''https://schema.org''),
                 (''@type'', JString ''Person''),
                 (''name'', strVal (person_name personal)),
                 (''jobTitle'', strVal (person_title personal)),
                 (''worksFor'', JObject
                    [(''@type'', JString ''Organization''),
                     (''name'', strVal (inst_name inst)),
                     (''url'', strVal (inst_url inst))]),
                 (''url'', JString baseUrl),
                 (''sameAs'', JArray (map (\<lambda>(platform, url). JString url) social)),
                 (''knowsAbout'', JArray [JString ''Quantum Dynamics'',
                    JString ''Computational Chemistry'', JString ''Semiclassical Methods'']),
                 (''alumniOf'', JArray (map (\<lambda>edu. JObject
                    [(''@type'', JString ''Organization''),
                     (''name'', strVal (edu_institution edu)),
                     (''url'', strVal (edu_url edu))]) schools))]
          in (case publicationsFile of
                None \<Rightarrow> stringify (JObject structuredData)
              | Some loaded \<Rightarrow>
                  (case those (map credential (publications loaded)) of
                     None \<Rightarrow> None
                   | Some credentials \<Rightarrow>
                       stringify (JObject (structuredData
                                    @ [(''hasCredential'', JArray credentials)]))))
      | _ \<Rightarrow> None)"

section \<open>Example documents\<close>

text \<open>A publication object that has a year and a status and no other property.\<close>

definition yearStatusOnly :: "int \<Rightarrow> string \<Rightarrow> publication" where
  "yearStatusOnly y s =
     \<lparr>pub_id = None, title = None, authors = None, journal = None, year = Some (Num y),
      doi = None, abstract = None, pub_image = None, pub_type = None, status = Some s,
      awards = None\<rparr>"

definition noStatistics :: statistics where
  "noStatistics =
     \<lparr>total_publications = 0, publications_by_year = Map.empty,
      publications_by_status = Map.empty, publications_by_type = Map.empty,
      latest_publication = None, collaboration_network = [], last_updated = []\<rparr>"

definition romanovPaper :: publication where
  "romanovPaper =
     \<lparr>pub_id = Some ''romanov2021'', title = Some ''Spin chains'',
      authors = Some [''R Korol'', ''A Romanov'', ''B Smith''],
      journal = Some ''J. Chem. Phys.'', year = Some (Num 2021), doi = None,
      abstract = Some [], pub_image = None, pub_type = Some ''journal'',
      status = Some ''published'', awards = None\<rparr>"

definition goodPaper :: "string option \<Rightarrow> publication" where
  "goodPaper t =
     \<lparr>pub_id = Some ''p'', title = t, authors = Some [''R Korol''],
      journal = Some ''J. Chem. Phys.'', year = Some (Num 2021), doi = Some ''10.1063/1'',
      abstract = Some [], pub_image = None, pub_type = Some ''journal'',
      status = Some ''published'', awards = None\<rparr>"

definition siteOwner :: personalData where
  "siteOwner =
     \<lparr>person_name = Some ''Roman Korol'', person_title = Some ''Postdoctoral Fellow'',
      person_institution =
        Some \<lparr>inst_name = Some ''University of Rochester'',
              inst_url = Some ''https://www.rochester.edu''\<rparr>,
      person_social = Some [(''linkedin'', ''https://www.linkedin.com/in/example'')],
      person_education =
        Some [\<lparr>edu_institution = Some ''University of Toronto'', edu_url = None\<rparr>]\<rparr>"

definition miscThenArticle :: string where
  "miscThenArticle =
     ''@misc{m1, title = {M}'' @ [CHR 0x0A] @ ''}'' @ [CHR 0x0A]
     @ ''@Article{k2, title = {T}'' @ [CHR 0x0A] @ ''}''"

definition oneLineEntry :: string where
  "oneLineEntry = ''@article{k1, title={T}, year={2022}}''"

definition entryWithLineBreak :: string where
  "entryWithLineBreak = ''@article{k1, title={T}, year={2022}'' @ [CHR 0x0A] @ ''}''"

text \<open>
  An article written on one line, followed by a book closed on a line of its own; and
  the two entries of \<open>miscThenArticle\<close> with their layout.
\<close>

definition articleThenBook :: string where
  "articleThenBook =
     ''@article{a1, title={X}}'' @ [CHR 0x0A]
     @ ''@book{b1,'' @ [CHR 0x0A]
     @ ''  title={Y},'' @ [CHR 0x0A]
     @ ''  author={Z},'' @ [CHR 0x0A]
     @ ''  year={1999}'' @ [CHR 0x0A] @ ''}''"

definition titleOnly :: "string \<Rightarrow> bibField" where
  "titleOnly t =
     \<lparr>fieldLead = '' '', fieldName = ''title'', beforeEq = '' '', afterEq = '' '',
      fieldValue = t\<rparr>"

definition miscEntry :: bibEntry where
  "miscEntry =
     \<lparr>entryGap = [], entryType = ''misc'', entryKey = ''m1'',
      entryFields = [titleOnly ''M''], entryTrail = []\<rparr>"

definition articleEntry :: bibEntry where
  "articleEntry =
     \<lparr>entryGap = [CHR 0x0A], entryType = ''Article'', entryKey = ''k2'',
      entryFields = [titleOnly ''T''], entryTrail = []\<rparr>"





definition storedDocument :: jsval where
  "storedDocument =
     JObject
       [(''publications'',
         JArray [JObject [(''id'', JString ''k1''), (''title'', JString ''T''),
                          (''authors'', JArray []), (''year'', JNumber (Num 2022)),
                          (''doi'', JNull)]]),
        (''statistics'', JObject [(''total_publications'', JNumber (Num 1))])]"

text \<open>
  The document \<open>addPublication\<close> hands to \<open>saveData\<close> after adding a first
  publication, with \<open>y\<close> as the year of the new publication.
\<close>

definition editedDocument :: "jsval \<Rightarrow> jsval" where
  "editedDocument y =
     JObject
       [(''publications'',
         JArray [JObject [(''id'', JString ''korol2024''), (''title'', JString ''Spin chains''),
                          (''authors'', JArray [JString ''R Korol'', JString ''B Smith'']),
                          (''journal'', JString ''J. Chem. Phys.''),
                          (''year'', y),
                          (''doi'', JNull), (''abstract'', JString []),
                          (''type'', JString ''journal''), (''status'', JString ''published'')]]),
        (''statistics'', JObject [(''total_publications'', JNumber (Num 1)),
                                 (''last_updated'', JString ''2025-06-01'')])]"

definition emptyDisk :: fileSystem where
  "emptyDisk = \<lparr>contents = Map.empty, writeFails = (\<lambda>path. False)\<rparr>"

definition juneFirst :: environment where
  "juneFirst = \<lparr>currentDate = ''2025-06-01'', toLocaleDateString = (\<lambda>date. ''September 15, 2024'')\<rparr>"

definition juneSecond :: environment where
  "juneSecond = \<lparr>currentDate = ''2025-06-02'', toLocaleDateString = (\<lambda>date. ''September 15, 2024'')\<rparr>"

definition otherZone :: environment where
  "otherZone =
     \<lparr>currentDate = ''2025-06-01'',
      toLocaleDateString =
        (\<lambda>date. if date = Some ''2024-09-15'' then ''September 15, 2024''
                else ''September 14, 2024'')\<rparr>"

definition conferenceNews :: newsItem where
  "conferenceNews =
     \<lparr>news_title = Some ''Conference talk'', news_date = Some ''2024-09-15'',
      news_category = Some ''academic'', news_summary = Some ''A talk'',
      news_content = Some ''Details'', news_images = None, news_featured = Some True,
      news_tags = Some [''talk'']\<rparr>"

section \<open>Notions of the round-trip proof\<close>

text \<open>
  \<open>endsValue rest\<close>: a number written before \<open>rest\<close> ends there.
  \<open>elemText\<close> is the text of an array element or member value, \<open>memberText\<close> that
  of a member, \<open>separator\<close> what stands between two of them, and \<open>valueStart\<close>
  holds of the first character of every value's text.
\<close>

definition endsValue :: "string \<Rightarrow> bool" where
  "endsValue rest \<longleftrightarrow>
     (case rest of
        [] \<Rightarrow> True
      | c # cs \<Rightarrow> \<not> isDigit c \<and> c \<noteq> CHR ''.'' \<and> c \<noteq> CHR ''e'' \<and> c \<noteq> CHR ''E'')"

definition elemText :: "nat \<Rightarrow> jsval \<Rightarrow> string" where
  "elemText ind x = (case serialize ind x of None \<Rightarrow> ''null'' | Some t \<Rightarrow> t)"

definition memberText :: "nat \<Rightarrow> string \<times> jsval \<Rightarrow> string" where
  "memberText ind kv = quoteJSON (fst kv) @ '': '' @ elemText ind (snd kv)"

definition separator :: "nat \<Rightarrow> string" where
  "separator ind = '','' @ newline @ pad ind"

definition valueStart :: "char \<Rightarrow> bool" where
  "valueStart c \<longleftrightarrow> isDigit c
     \<or> c \<in> set [CHR ''n'', CHR ''t'', CHR ''f'', CHR 0x22, CHR ''['', CHR ''{'', CHR ''-'']"

text \<open>The DOI test of the validator, as a predicate on a publication.\<close>

definition doiMalformed :: "publication \<Rightarrow> bool" where
  "doiMalformed pub = (case doi pub of None \<Rightarrow> False | Some d \<Rightarrow> d \<noteq> [] \<and> \<not> prefix ''10.'' d)"

definition abcPaper :: publication where
  "abcPaper = (goodPaper (Some ''Paper B''))\<lparr>doi := Some ''abc''\<rparr>"

definition oldPaper :: publication where
  "oldPaper = (goodPaper (Some ''Paper C''))\<lparr>year := Some (Num 1850)\<rparr>"

text \<open>
  For the BibTeX files: \<open>lineBrace s\<close> holds when \<open>s\<close> has a closing brace at the
  start of a line, and a text is \<open>tidy\<close> when it has none, does not start with a
  closing brace and does not end in a line break.
\<close>

fun lineBrace :: "string \<Rightarrow> bool" where
  "lineBrace (a # b # cs) = ((a = CHR 0x0A \<and> b = CHR ''}'') \<or> lineBrace (b # cs))"
| "lineBrace [a] = False"
| "lineBrace [] = False"

definition tidy :: "string \<Rightarrow> bool" where
  "tidy s \<longleftrightarrow> \<not> lineBrace s \<and> (s \<noteq> [] \<longrightarrow> hd s \<noteq> CHR ''}'' \<and> last s \<noteq> CHR 0x0A)"

section \<open>Theorems\<close>

subsection \<open>The merge keeps what is there\<close>

lemma find_pub_id_None:
  "List.find (\<lambda>pub. pub_id pub = k) ps = None \<longleftrightarrow> k \<notin> pub_id ` set ps"
  by (auto simp: find_None_iff)

lemma mergeStep_if:
  "mergeStep merged bibPub =
     (if pub_id bibPub \<in> pub_id ` set merged then merged else merged @ [bibPub])"
proof (cases "List.find (\<lambda>pub. pub_id pub = pub_id bibPub) merged")
  case None
  then show ?thesis
    using find_pub_id_None [of "pub_id bibPub" merged] by (simp add: mergeStep_def)
next
  case (Some found)
  then have "\<not> pub_id bibPub \<notin> pub_id ` set merged"
    using find_pub_id_None [of "pub_id bibPub" merged] by simp
  with Some show ?thesis by (simp add: mergeStep_def)
qed

lemma mergePublications_append:
  "\<exists>added. mergePublications existing incoming = existing @ added
      \<and> set added \<subseteq> set incoming
      \<and> pub_id ` set added \<inter> pub_id ` set existing = {}
      \<and> pub_id ` set incoming \<subseteq> pub_id ` set (existing @ added)
      \<and> distinct (map pub_id added)"
proof (induction incoming rule: rev_induct)
  case Nil
  show ?case by (simp add: mergePublications_def)
next
  case (snoc p ps)
  then obtain added where a:
    "mergePublications existing ps = existing @ added"
    "set added \<subseteq> set ps"
    "pub_id ` set added \<inter> pub_id ` set existing = {}"
    "pub_id ` set ps \<subseteq> pub_id ` set (existing @ added)"
    "distinct (map pub_id added)"
    by blast
  have step: "mergePublications existing (ps @ [p]) = mergeStep (existing @ added) p"
    using a(1) by (simp add: mergePublications_def)
  show ?case
  proof (cases "pub_id p \<in> pub_id ` set (existing @ added)")
    case True
    then have "mergePublications existing (ps @ [p]) = existing @ added"
      using step by (simp add: mergeStep_if)
    moreover have "pub_id ` set (ps @ [p]) \<subseteq> pub_id ` set (existing @ added)"
      using a(4) True by auto
    moreover have "set added \<subseteq> set (ps @ [p])"
      using a(2) by auto
    ultimately show ?thesis using a(3,5) by blast
  next
    case False
    then have m: "mergePublications existing (ps @ [p]) = existing @ (added @ [p])"
      using step by (simp add: mergeStep_if)
    have 1: "set (added @ [p]) \<subseteq> set (ps @ [p])" using a(2) by auto
    have 2: "pub_id ` set (added @ [p]) \<inter> pub_id ` set existing = {}"
      using a(3) False by auto
    have 3: "pub_id ` set (ps @ [p]) \<subseteq> pub_id ` set (existing @ (added @ [p]))"
      using a(4) by auto
    have 4: "distinct (map pub_id (added @ [p]))"
      using a(5) False by auto
    from m 1 2 3 4 show ?thesis by blast
  qed
qed

text \<open>
  C1. The merge of \<open>updatePublicationsFromSources\<close> is non-destructive. Each incoming
  record is looked up by id in the collection merged so far: when the id is there the
  collection is left as it is, when it is not the record is pushed at the end. The
  document written back therefore starts with the existing records, unchanged and in
  their places, followed by some of the incoming records, none of which has the id of
  an existing record; every incoming id is in the result, and no id is added twice.
\<close>

theorem updatePublicationsFromSources_non_destructive:
  "mergeStep merged bibPub =
     (if pub_id bibPub \<in> pub_id ` set merged then merged else merged @ [bibPub])
   \<and> map_option publications
        (updatePublicationsFromSources today (Some incoming) (Some cur))
       = Some (mergePublications (publications cur) incoming)
   \<and> (\<exists>added. mergePublications (publications cur) incoming = publications cur @ added
        \<and> set added \<subseteq> set incoming
        \<and> pub_id ` set added \<inter> pub_id ` set (publications cur) = {}
        \<and> pub_id ` set incoming \<subseteq> pub_id ` set (publications cur @ added)
        \<and> distinct (map pub_id added))"
proof -
  have "map_option publications
          (updatePublicationsFromSources today (Some incoming) (Some cur))
        = Some (mergePublications (publications cur) incoming)"
    by (simp add: updatePublicationsFromSources_def Let_def)
  then show ?thesis
    using mergeStep_if [of merged bibPub]
      mergePublications_append [of "publications cur" incoming]
    by blast
qed

subsection \<open>The publication count follows the collection\<close>

text \<open>
  C10. After each of the two operations that add publications, the document they write
  has \<open>statistics.total_publications\<close> equal to the length of its \<open>publications\<close>
  sequence: \<open>updatePublicationsFromSources\<close> (given parsed BibTeX publications and a
  readable document) and the editor's \<open>addPublication\<close> (given a loaded document),
  which puts the new publication at the front of the sequence.
\<close>

theorem total_publications_is_length:
  "(\<exists>d. updatePublicationsFromSources today (Some incoming) (Some cur) = Some d
        \<and> total_publications (statistics d) = length (publications d))
   \<and> (\<exists>d. addPublication today a (Some cur) = Some d
        \<and> total_publications (statistics d) = length (publications d)
        \<and> publications d = newPublication a # publications cur)"
  by (simp add: updatePublicationsFromSources_def addPublication_def Let_def)

subsection \<open>Academic metrics\<close>

lemma metricsCounts_scenario:
  assumes "year p1 = Some (Num 2023)" "status p1 = Some ''published''"
    and "year p2 = Some (Num 2023)" "status p2 = Some ''submitted''"
    and "year p3 = Some (Num 2024)" "status p3 = Some ''published''"
  shows "total_publications (metricsCounts today [p1, p2, p3]) = 3"
    and "publications_by_year (metricsCounts today [p1, p2, p3])
        = [''2023'' \<mapsto> 2, ''2024'' \<mapsto> 1]"
    and "publications_by_status (metricsCounts today [p1, p2, p3])
        = [''published'' \<mapsto> 2, ''submitted'' \<mapsto> 1]"
    and "latest_publication (metricsCounts today [p1, p2, p3]) = Some p3"
proof -
  show "total_publications (metricsCounts today [p1, p2, p3]) = 3"
    by (simp add: metricsCounts_def groupStep_def)
  show "publications_by_year (metricsCounts today [p1, p2, p3])
        = [''2023'' \<mapsto> 2, ''2024'' \<mapsto> 1]"
    using assms
    by (simp add: metricsCounts_def groupStep_def increment_def keyOfNum_def showInt_def
        showNat.simps numeral_2_eq_2)
  show "publications_by_status (metricsCounts today [p1, p2, p3])
        = [''published'' \<mapsto> 2, ''submitted'' \<mapsto> 1]"
    using assms
    by (auto simp: metricsCounts_def groupStep_def increment_def keyOfStr_def fun_eq_iff)
  show "latest_publication (metricsCounts today [p1, p2, p3]) = Some p3"
    using assms by (simp add: metricsCounts_def latestOf_def)
qed

lemma collectCollaborators_Some:
  "\<forall>p \<in> set pubs. authors p \<noteq> None \<Longrightarrow> \<exists>r. collectCollaborators acc pubs = Some r"
  by (induction pubs arbitrary: acc) auto

text \<open>
  C5 (as amended). For three publications with the years and statuses 2023/published,
  2023/submitted and 2024/published that each have an \<open>authors\<close> array (whatever
  their other properties), \<open>generateAcademicMetrics\<close> writes the document back with
  the publications unchanged and with the statistics \<open>total_publications = 3\<close>,
  \<open>publications_by_year = {2023: 2, 2024: 1}\<close>,
  \<open>publications_by_status = {published: 2, submitted: 1}\<close> and, as
  \<open>latest_publication\<close>, the third record, whose year is 2024.
\<close>

theorem metrics_scenario:
  assumes "year p1 = Some (Num 2023)" "status p1 = Some ''published''"
    and "year p2 = Some (Num 2023)" "status p2 = Some ''submitted''"
    and "year p3 = Some (Num 2024)" "status p3 = Some ''published''"
    and "authors p1 \<noteq> None" "authors p2 \<noteq> None" "authors p3 \<noteq> None"
  shows "\<exists>written. generateAcademicMetrics today
                     (Some \<lparr>publications = [p1, p2, p3], statistics = old\<rparr>) = Some written
    \<and> publications written = [p1, p2, p3]
    \<and> total_publications (statistics written) = 3
    \<and> publications_by_year (statistics written) = [''2023'' \<mapsto> 2, ''2024'' \<mapsto> 1]
    \<and> publications_by_status (statistics written)
        = [''published'' \<mapsto> 2, ''submitted'' \<mapsto> 1]
    \<and> latest_publication (statistics written) = Some p3
    \<and> year p3 = Some (Num 2024)"
proof -
  let ?pubs = "[p1, p2, p3]"
  have "\<forall>p \<in> set ?pubs. authors p \<noteq> None" using assms(7-9) by simp
  from collectCollaborators_Some [OF this] obtain r
    where r: "collectCollaborators [] ?pubs = Some r" by blast
  let ?written = "\<lparr>publications = ?pubs,
      statistics = spread old ((metricsCounts today ?pubs)\<lparr>collaboration_network := r\<rparr>)\<rparr>"
  have g: "generateAcademicMetrics today (Some \<lparr>publications = ?pubs, statistics = old\<rparr>)
           = Some ?written"
    using r by (simp add: generateAcademicMetrics_def Let_def del: collectCollaborators.simps)
  note m = metricsCounts_scenario [OF assms(1-6), of today]
  have "publications ?written = ?pubs
    \<and> total_publications (statistics ?written) = 3
    \<and> publications_by_year (statistics ?written) = [''2023'' \<mapsto> 2, ''2024'' \<mapsto> 1]
    \<and> publications_by_status (statistics ?written)
        = [''published'' \<mapsto> 2, ''submitted'' \<mapsto> 1]
    \<and> latest_publication (statistics ?written) = Some p3"
    using m by (simp add: spread_def)
  with g assms(5) show ?thesis by blast
qed

theorem metrics_scenario_witness:
  "\<exists>written. generateAcademicMetrics ''2025-06-01''
       (Some \<lparr>publications =
                 [(yearStatusOnly 2023 ''published'')\<lparr>authors := Some [''R Korol'']\<rparr>,
                  (yearStatusOnly 2023 ''submitted'')\<lparr>authors := Some []\<rparr>,
                  (yearStatusOnly 2024 ''published'')\<lparr>authors := Some [''B Smith'']\<rparr>],
              statistics = noStatistics\<rparr>) = Some written
    \<and> total_publications (statistics written) = 3
    \<and> publications_by_year (statistics written) = [''2023'' \<mapsto> 2, ''2024'' \<mapsto> 1]
    \<and> publications_by_status (statistics written)
        = [''published'' \<mapsto> 2, ''submitted'' \<mapsto> 1]
    \<and> map_option year (latest_publication (statistics written)) = Some (Some (Num 2024))"
  using metrics_scenario [of "(yearStatusOnly 2023 ''published'')\<lparr>authors := Some [''R Korol'']\<rparr>"
      "(yearStatusOnly 2023 ''submitted'')\<lparr>authors := Some []\<rparr>"
      "(yearStatusOnly 2024 ''published'')\<lparr>authors := Some [''B Smith'']\<rparr>"
      "''2025-06-01''" noStatistics]
  by (auto simp: yearStatusOnly_def)

text \<open>
  The claim as stated fails. Its three objects have a year and a status and no
  \<open>authors\<close>: the counts are computed, then \<open>pub.authors.forEach\<close> throws on the
  first of them, the \<open>catch\<close> reports the error, and no metrics are written.
\<close>

theorem metrics_scenario_counterexample:
  "generateAcademicMetrics ''2025-06-01''
     (Some \<lparr>publications = [yearStatusOnly 2023 ''published'', yearStatusOnly 2023 ''submitted'',
                             yearStatusOnly 2024 ''published''],
            statistics = noStatistics\<rparr>) = None"
  by (simp add: generateAcademicMetrics_def yearStatusOnly_def Let_def)

lemma setAdd_set: "set (setAdd s a) = insert a (set s)"
  by (auto simp: setAdd_def)

lemma setAdd_distinct: "distinct s \<Longrightarrow> distinct (setAdd s a)"
  by (simp add: setAdd_def)

lemma addAuthors_set:
  "set (foldl (\<lambda>s author. if isCollaborator author then setAdd s author else s) acc as)
     = set acc \<union> {a \<in> set as. isCollaborator a}"
  by (induction as arbitrary: acc) (auto simp: setAdd_set)

lemma addAuthors_distinct:
  "distinct acc \<Longrightarrow>
   distinct (foldl (\<lambda>s author. if isCollaborator author then setAdd s author else s) acc as)"
  by (induction as arbitrary: acc) (auto simp: setAdd_distinct)

lemma collectCollaborators_set:
  "collectCollaborators acc pubs = Some r \<Longrightarrow>
   set r = set acc \<union> {a. \<exists>p \<in> set pubs. \<exists>as. authors p = Some as \<and> a \<in> set as \<and> isCollaborator a}"
proof (induction pubs arbitrary: acc)
  case Nil
  then show ?case by simp
next
  case (Cons p ps)
  then obtain as where as: "authors p = Some as"
    by (cases "authors p") auto
  let ?acc = "foldl (\<lambda>s author. if isCollaborator author then setAdd s author else s) acc as"
  from Cons.prems as have "collectCollaborators ?acc ps = Some r" by simp
  from Cons.IH [OF this] have
    "set r = set ?acc \<union> {a. \<exists>p \<in> set ps. \<exists>as. authors p = Some as \<and> a \<in> set as \<and> isCollaborator a}" .
  then show ?case using as by (auto simp: addAuthors_set)
qed

lemma collectCollaborators_distinct:
  "collectCollaborators acc pubs = Some r \<Longrightarrow> distinct acc \<Longrightarrow> distinct r"
proof (induction pubs arbitrary: acc)
  case Nil
  then show ?case by simp
next
  case (Cons p ps)
  then obtain as where as: "authors p = Some as"
    by (cases "authors p") auto
  with Cons show ?case by (auto simp: addAuthors_distinct)
qed

text \<open>
  C7 (as amended). When every publication has an \<open>authors\<close> array, the metrics run
  writes a collaboration network that lists, without repetition, exactly the author
  names of the collection that are not \<open>'R Korol'\<close> and do not contain the text
  \<open>'Roman'\<close>.
\<close>

theorem collaboration_network_is_filtered_authors:
  assumes "\<forall>p \<in> set (publications d). authors p \<noteq> None"
  shows "\<exists>d'. generateAcademicMetrics today (Some d) = Some d'
     \<and> distinct (collaboration_network (statistics d'))
     \<and> set (collaboration_network (statistics d'))
         = {a. (\<exists>p \<in> set (publications d). \<exists>as. authors p = Some as \<and> a \<in> set as)
               \<and> a \<noteq> ''R Korol'' \<and> \<not> strIncludes a ''Roman''}"
proof -
  from collectCollaborators_Some [OF assms] obtain r
    where r: "collectCollaborators [] (publications d) = Some r" by blast
  have s: "set r = {a. \<exists>p \<in> set (publications d). \<exists>as. authors p = Some as \<and> a \<in> set as \<and> isCollaborator a}"
    using collectCollaborators_set [OF r] by simp
  have d: "distinct r" using collectCollaborators_distinct [OF r] by simp
  have "generateAcademicMetrics today (Some d)
        = Some (d\<lparr>statistics := spread (statistics d)
                   ((metricsCounts today (publications d))\<lparr>collaboration_network := r\<rparr>)\<rparr>)"
    using r by (simp add: generateAcademicMetrics_def Let_def)
  moreover have "set r = {a. (\<exists>p \<in> set (publications d). \<exists>as. authors p = Some as \<and> a \<in> set as)
               \<and> a \<noteq> ''R Korol'' \<and> \<not> strIncludes a ''Roman''}"
    unfolding s by (auto simp: isCollaborator_def)
  ultimately show ?thesis using d by (simp add: spread_def)
qed

theorem collaboration_network_is_filtered_authors_witness:
  "\<exists>d'. generateAcademicMetrics ''2025-06-01''
           (Some \<lparr>publications = [romanovPaper], statistics = noStatistics\<rparr>) = Some d'
     \<and> distinct (collaboration_network (statistics d'))
     \<and> set (collaboration_network (statistics d'))
         = {a. (\<exists>p \<in> set (publications
                   \<lparr>publications = [romanovPaper], statistics = noStatistics\<rparr>).
                 \<exists>as. authors p = Some as \<and> a \<in> set as)
               \<and> a \<noteq> ''R Korol'' \<and> \<not> strIncludes a ''Roman''}"
proof -
  have h: "\<forall>p \<in> set (publications \<lparr>publications = [romanovPaper], statistics = noStatistics\<rparr>).
             authors p \<noteq> None"
    by (simp add: romanovPaper_def)
  show ?thesis
    by (rule collaboration_network_is_filtered_authors [OF h])
qed

text \<open>
  The claim as stated fails: \<open>A Romanov\<close> is an author of the one publication of this
  collection and is not the profile owner, yet the network written is \<open>B Smith\<close> alone.
\<close>

theorem collaboration_network_counterexample:
  "authors romanovPaper = Some [''R Korol'', ''A Romanov'', ''B Smith'']
   \<and> map_option (\<lambda>d. collaboration_network (statistics d))
        (generateAcademicMetrics ''2025-06-01''
           (Some \<lparr>publications = [romanovPaper], statistics = noStatistics\<rparr>))
       = Some [''B Smith'']"
  by (simp add: generateAcademicMetrics_def romanovPaper_def spread_def isCollaborator_def
      setAdd_def Let_def)

subsection \<open>Validation\<close>

text \<open>
  C4, the duplicate rule. Two publications titled \<open>Paper A\<close> and \<open>paper a\<close> give
  the one issue \<open>Duplicate publications found: paper a\<close>. With a third publication
  that has no title, the validator reports the missing title and no duplicate: the
  duplicate check throws on the missing title and the \<open>catch\<close> returns the issues
  pushed before it.
\<close>

theorem validateAcademicData_duplicate_with_untitled:
  "validateAcademicData 2025 (Some siteOwner)
     (Some \<lparr>publications = [goodPaper (Some ''Paper A''), goodPaper (Some ''paper a'')],
            statistics = noStatistics\<rparr>)
     = [''Duplicate publications found: paper a'']
   \<and> validateAcademicData 2025 (Some siteOwner)
     (Some \<lparr>publications = [goodPaper (Some ''Paper A''), goodPaper (Some ''paper a''),
                             goodPaper None],
            statistics = noStatistics\<rparr>)
     = [''Publication 3: Missing title or authors'']"
  by (simp add: validateAcademicData_def siteOwner_def goodPaper_def truthyStr_def
      validatePublication_def yearOutOfRange_def lowerTitles_def toLowerCase_def
      lowerChar_def duplicatesOf_def indexOf_def Let_def publicationLabel_def
      showNat.simps)

theorem validateAcademicData_untitled_witness:
  "validateAcademicData 2025 (Some siteOwner)
     (Some \<lparr>publications = [goodPaper (Some ''Paper A''), goodPaper (Some ''paper a''),
                             goodPaper None],
            statistics = noStatistics\<rparr>)
     = [''Publication 3: Missing title or authors'']"
  using validateAcademicData_duplicate_with_untitled by (rule conjunct2)

subsection \<open>BibTeX extraction\<close>

lemma takeWhile_upto: "x \<notin> set xs \<Longrightarrow> takeWhile (\<lambda>c. c \<noteq> x) (xs @ x # ys) = xs"
  by (induction xs) auto

lemma dropWhile_upto: "x \<notin> set xs \<Longrightarrow> dropWhile (\<lambda>c. c \<noteq> x) (xs @ x # ys) = x # ys"
  by (induction xs) auto


lemma takeWhile_none: "ys = [] \<or> \<not> P (hd ys) \<Longrightarrow> takeWhile P ys = []"
  by (cases ys) auto

lemma dropWhile_none: "ys = [] \<or> \<not> P (hd ys) \<Longrightarrow> dropWhile P ys = ys"
  by (cases ys) auto

lemma takeWhile_class:
  "list_all P xs \<Longrightarrow> ys = [] \<or> \<not> P (hd ys) \<Longrightarrow> takeWhile P (xs @ ys) = xs"
  by (induction xs) (simp_all add: takeWhile_none)

lemma dropWhile_class:
  "list_all P xs \<Longrightarrow> ys = [] \<or> \<not> P (hd ys) \<Longrightarrow> dropWhile P (xs @ ys) = ys"
  by (induction xs) (simp_all add: dropWhile_none)

lemma space_not_word: "isSpace c \<Longrightarrow> \<not> isWordChar c"
  by (auto simp: isSpace_def isWordChar_def isDigit_def)

lemma fieldsFrom_skip: "fieldsFrom (length xs) m (xs @ rest) = fieldsFrom 0 m rest"
  by (induction xs) auto

lemma matchFieldAt_nonword: "\<not> isWordChar c \<Longrightarrow> matchFieldAt (c # s) = None"
  by (simp add: matchFieldAt_def)

lemma fieldsFrom_filler:
  "list_all (\<lambda>c. \<not> isWordChar c) g \<Longrightarrow> fieldsFrom 0 m (g @ s) = fieldsFrom 0 m s"
  by (induction g) (auto simp: matchFieldAt_nonword)

lemma matchFieldAt_core:
  assumes "wellFormedField f"
  shows "matchFieldAt (fieldCore f @ rest)
         = Some (fieldName f, fieldValue f, length (fieldCore f))"
proof -
  let ?n = "fieldName f" and ?a = "beforeEq f" and ?b = "afterEq f" and ?v = "fieldValue f"
  from assms have n: "?n \<noteq> []" "list_all isWordChar ?n"
    and a: "list_all isSpace ?a" and b: "list_all isSpace ?b"
    and v: "CHR ''}'' \<notin> set ?v"
    by (simp_all add: wellFormedField_def)
  let ?s1 = "?a @ CHR ''='' # ?b @ CHR ''{'' # ?v @ CHR ''}'' # rest"
  let ?s2 = "CHR ''='' # ?b @ CHR ''{'' # ?v @ CHR ''}'' # rest"
  let ?s3 = "?b @ CHR ''{'' # ?v @ CHR ''}'' # rest"
  let ?s4 = "CHR ''{'' # ?v @ CHR ''}'' # rest"
  have core: "fieldCore f @ rest = ?n @ ?s1" by (simp add: fieldCore_def)
  have h1: "?s1 = [] \<or> \<not> isWordChar (hd ?s1)"
  proof (cases ?a)
    case Nil
    then show ?thesis by (simp add: isWordChar_def isDigit_def)
  next
    case (Cons x xs)
    then have "isSpace x" using a by simp
    then show ?thesis using Cons by (simp add: space_not_word)
  qed
  have t1: "takeWhile isWordChar (?n @ ?s1) = ?n" "dropWhile isWordChar (?n @ ?s1) = ?s1"
    using takeWhile_class [OF n(2) h1] dropWhile_class [OF n(2) h1] by simp_all
  have h2: "?s2 = [] \<or> \<not> isSpace (hd ?s2)" by (simp add: isSpace_def)
  have t2: "takeWhile isSpace (?a @ ?s2) = ?a" "dropWhile isSpace (?a @ ?s2) = ?s2"
    using takeWhile_class [OF a h2] dropWhile_class [OF a h2] by simp_all
  have h4: "?s4 = [] \<or> \<not> isSpace (hd ?s4)" by (simp add: isSpace_def)
  have t3: "takeWhile isSpace (?b @ ?s4) = ?b" "dropWhile isSpace (?b @ ?s4) = ?s4"
    using takeWhile_class [OF b h4] dropWhile_class [OF b h4] by simp_all
  have t5: "takeWhile (\<lambda>c. c \<noteq> CHR ''}'') (?v @ CHR ''}'' # rest) = ?v"
    "dropWhile (\<lambda>c. c \<noteq> CHR ''}'') (?v @ CHR ''}'' # rest) = CHR ''}'' # rest"
    using takeWhile_upto [OF v] dropWhile_upto [OF v] by simp_all
  show ?thesis
    unfolding core matchFieldAt_def
    using n(1) by (simp add: t1 t2 t3 t5 Let_def fieldCore_def)
qed

lemma fieldsFrom_fieldText:
  assumes "wellFormedField f"
  shows "fieldsFrom 0 m (fieldText f @ rest)
         = fieldsFrom 0 (m(fieldName f \<mapsto> fieldValue f)) rest"
proof -
  have lead: "list_all (\<lambda>c. \<not> isWordChar c) (fieldLead f)"
    using assms by (simp add: wellFormedField_def isFiller_def list_all_iff)
  obtain c cs where c: "fieldCore f = c # cs"
    using assms by (cases "fieldName f") (auto simp: fieldCore_def wellFormedField_def)
  have m: "matchFieldAt (c # cs @ rest) = Some (fieldName f, fieldValue f, Suc (length cs))"
    using matchFieldAt_core [OF assms, of rest] c by simp
  have "fieldsFrom 0 m (fieldText f @ rest) = fieldsFrom 0 m (fieldCore f @ rest)"
    using fieldsFrom_filler [OF lead] by (simp add: fieldText_def)
  also have "\<dots> = fieldsFrom (length cs) (m(fieldName f \<mapsto> fieldValue f)) (cs @ rest)"
    using m c by simp
  also have "\<dots> = fieldsFrom 0 (m(fieldName f \<mapsto> fieldValue f)) rest"
    by (rule fieldsFrom_skip)
  finally show ?thesis .
qed

lemma fieldsFrom_fields:
  "list_all wellFormedField fs \<Longrightarrow>
   fieldsFrom 0 m (concat (map fieldText fs) @ rest)
     = fieldsFrom 0 (foldl (\<lambda>m f. m(fieldName f \<mapsto> fieldValue f)) m fs) rest"
  by (induction fs arbitrary: m) (simp_all add: fieldsFrom_fieldText)

lemma foldl_update_map_of:
  "foldl (\<lambda>m f. m(fieldName f \<mapsto> fieldValue f)) m fs
     = m ++ map_of (rev (map (\<lambda>f. (fieldName f, fieldValue f)) fs))"
proof (induction fs arbitrary: m)
  case Nil
  show ?case by simp
next
  case (Cons f fs)
  let ?rest = "map_of (rev (map (\<lambda>f. (fieldName f, fieldValue f)) fs))"
  have "foldl (\<lambda>m f. m(fieldName f \<mapsto> fieldValue f)) m (f # fs)
        = m(fieldName f \<mapsto> fieldValue f) ++ ?rest"
    by (simp only: foldl.simps Cons)
  also have "\<dots> = (m ++ [fieldName f \<mapsto> fieldValue f]) ++ ?rest" by simp
  also have "\<dots> = m ++ ([fieldName f \<mapsto> fieldValue f] ++ ?rest)"
    by (rule map_add_assoc [symmetric])
  also have "[fieldName f \<mapsto> fieldValue f] ++ ?rest
             = map_of (rev (map (\<lambda>f. (fieldName f, fieldValue f)) (f # fs)))"
    by (simp add: map_of_append)
  finally show ?case .
qed

lemma fieldsOf_body:
  assumes "wellFormedEntry e"
  shows "fieldsOf (dropWhile isSpace (entryBody e)) = fieldGiven e"
proof -
  let ?body = "entryBody e"
  have sp: "list_all (\<lambda>c. \<not> isWordChar c) (takeWhile isSpace ?body)"
    by (auto simp: list_all_iff space_not_word dest: set_takeWhileD)
  have tr: "list_all (\<lambda>c. \<not> isWordChar c) (entryTrail e)"
    using assms by (simp add: wellFormedEntry_def isFiller_def list_all_iff)
  have fs: "list_all wellFormedField (entryFields e)"
    using assms by (simp add: wellFormedEntry_def)
  have "fieldsFrom 0 Map.empty (takeWhile isSpace ?body @ dropWhile isSpace ?body)
        = fieldsFrom 0 Map.empty (dropWhile isSpace ?body)"
    by (rule fieldsFrom_filler [OF sp])
  then have "fieldsOf (dropWhile isSpace ?body) = fieldsFrom 0 Map.empty ?body"
    by (simp add: fieldsOf_def)
  also have "\<dots> = fieldsFrom 0
      (foldl (\<lambda>m f. m(fieldName f \<mapsto> fieldValue f)) Map.empty (entryFields e)) (entryTrail e)"
    unfolding entryBody_def by (rule fieldsFrom_fields [OF fs])
  also have "\<dots> = foldl (\<lambda>m f. m(fieldName f \<mapsto> fieldValue f)) Map.empty (entryFields e)"
    using fieldsFrom_filler [OF tr, of _ "[]"] by simp
  also have "\<dots> = fieldGiven e"
    by (simp add: foldl_update_map_of fieldGiven_def fun_eq_iff)
  finally show ?thesis .
qed


lemma not_in_run: "list_all P xs \<Longrightarrow> \<not> P x \<Longrightarrow> x \<notin> set xs"
  by (auto simp: list_all_iff)

lemma filler_brace: "isFiller s \<Longrightarrow> CHR ''}'' \<notin> set s"
  unfolding isFiller_def list_all_iff by blast

lemma lineBrace_brace: "lineBrace s \<Longrightarrow> CHR ''}'' \<in> set s"
  by (induction s rule: lineBrace.induct) auto

lemma lineBrace_append:
  "lineBrace (xs @ ys) \<longleftrightarrow>
     lineBrace xs \<or> lineBrace ys
     \<or> (xs \<noteq> [] \<and> ys \<noteq> [] \<and> last xs = CHR 0x0A \<and> hd ys = CHR ''}'')"
proof (induction xs rule: lineBrace.induct)
  case (1 a b cs)
  then show ?case by auto
next
  case (2 a)
  show ?case by (cases ys) auto
next
  case 3
  show ?case by simp
qed

lemma findSub_lineBrace:
  "\<not> lineBrace t \<Longrightarrow> findSub [CHR 0x0A, CHR ''}''] (t @ CHR 0x0A # CHR ''}'' # rest) = Some t"
proof (induction t)
  case Nil
  show ?case by simp
next
  case (Cons c cs)
  then have ih: "findSub [CHR 0x0A, CHR ''}''] (cs @ CHR 0x0A # CHR ''}'' # rest) = Some cs"
    by (cases cs) auto
  have "\<not> prefix [CHR 0x0A, CHR ''}''] (c # cs @ CHR 0x0A # CHR ''}'' # rest)"
    using Cons.prems by (cases cs) auto
  then show ?case using ih by simp
qed

lemma tidy_append: "tidy xs \<Longrightarrow> tidy ys \<Longrightarrow> tidy (xs @ ys)"
  by (auto simp: tidy_def lineBrace_append hd_append last_append)

lemma tidy_close:
  assumes "CHR ''}'' \<notin> set pre" and "pre \<noteq> []" and "last pre \<noteq> CHR 0x0A"
  shows "tidy (pre @ [CHR ''}''])"
proof -
  have "\<not> lineBrace pre" using assms(1) lineBrace_brace by blast
  moreover have "hd pre \<noteq> CHR ''}''" using assms(1,2) hd_in_set by metis
  ultimately show ?thesis
    using assms(2,3) by (simp add: tidy_def lineBrace_append hd_append)
qed

lemma tidy_fieldText:
  assumes "wellFormedField f"
  shows "tidy (fieldText f)" and "fieldText f \<noteq> []"
    and "\<exists>c \<in> set (fieldText f). \<not> isSpace c"
proof -
  let ?front = "fieldLead f @ fieldName f @ beforeEq f @ ''='' @ afterEq f"
  let ?pre = "?front @ CHR ''{'' # fieldValue f"
  have t: "fieldText f = ?pre @ [CHR ''}'']" by (simp add: fieldText_def fieldCore_def)
  have nw: "\<not> isWordChar (CHR ''}'')" by (simp add: isWordChar_def isDigit_def)
  have ns: "\<not> isSpace (CHR ''}'')" by (simp add: isSpace_def)
  from assms have w: "isFiller (fieldLead f)" "list_all isWordChar (fieldName f)"
    "list_all isSpace (beforeEq f)" "list_all isSpace (afterEq f)"
    "CHR ''}'' \<notin> set (fieldValue f)"
    "fieldValue f = [] \<or> last (fieldValue f) \<noteq> CHR 0x0A"
    by (simp_all add: wellFormedField_def)
  have "CHR ''}'' \<notin> set (fieldLead f)" by (rule filler_brace [OF w(1)])
  moreover have "CHR ''}'' \<notin> set (fieldName f)" by (rule not_in_run [OF w(2) nw])
  moreover have "CHR ''}'' \<notin> set (beforeEq f)" by (rule not_in_run [OF w(3) ns])
  moreover have "CHR ''}'' \<notin> set (afterEq f)" by (rule not_in_run [OF w(4) ns])
  moreover note w(5)
  ultimately have nb: "CHR ''}'' \<notin> set ?pre" by simp
  have ne: "?pre \<noteq> []" by simp
  have "last ?pre = last (CHR ''{'' # fieldValue f)" by (rule last_appendR) simp
  then have la: "last ?pre \<noteq> CHR 0x0A" using w(6) by (cases "fieldValue f") auto
  show "tidy (fieldText f)" unfolding t by (rule tidy_close [OF nb ne la])
  show "fieldText f \<noteq> []" unfolding t by simp
  have "CHR ''}'' \<in> set (fieldText f)" unfolding t by simp
  with ns show "\<exists>c \<in> set (fieldText f). \<not> isSpace c" by blast
qed

lemma tidy_fields: "list_all wellFormedField fs \<Longrightarrow> tidy (concat (map fieldText fs))"
proof (induction fs)
  case Nil
  show ?case by (simp add: tidy_def)
next
  case (Cons f fs)
  then show ?case using tidy_fieldText(1) [of f] by (simp add: tidy_append)
qed

lemma body_props:
  assumes "wellFormedEntry e"
  shows "\<not> lineBrace (dropWhile isSpace (entryBody e))"
    and "dropWhile isSpace (entryBody e) \<noteq> []"
proof -
  let ?F = "concat (map fieldText (entryFields e))"
  let ?body = "entryBody e"
  from assms have fs: "list_all wellFormedField (entryFields e)" "entryFields e \<noteq> []"
    and tr: "isFiller (entryTrail e)" by (simp_all add: wellFormedEntry_def)
  have tF: "tidy ?F" by (rule tidy_fields [OF fs(1)])
  have nbt: "CHR ''}'' \<notin> set (entryTrail e)" by (rule filler_brace [OF tr])
  then have lt: "\<not> lineBrace (entryTrail e)" using lineBrace_brace by blast
  have ht: "entryTrail e \<noteq> [] \<longrightarrow> hd (entryTrail e) \<noteq> CHR ''}''"
    using nbt hd_in_set by metis
  have "\<not> lineBrace ?body"
    unfolding entryBody_def lineBrace_append using tF lt ht by (auto simp: tidy_def)
  moreover have "?body = takeWhile isSpace ?body @ dropWhile isSpace ?body" by simp
  ultimately show "\<not> lineBrace (dropWhile isSpace ?body)"
    using lineBrace_append [of "takeWhile isSpace ?body" "dropWhile isSpace ?body"] by simp
  obtain f fs' where f: "entryFields e = f # fs'" using fs(2) by (cases "entryFields e") auto
  then have "wellFormedField f" using fs(1) by simp
  from tidy_fieldText(3) [OF this] f have "\<exists>c \<in> set ?body. \<not> isSpace c"
    by (auto simp: entryBody_def)
  then show "dropWhile isSpace ?body \<noteq> []" by (simp add: dropWhile_eq_Nil_conv)
qed

lemma matchEntryAt_entryText:
  assumes "wellFormedEntry e"
  shows "matchEntryAt (entryText e @ rest)
         = Some (entryType e, entryKey e, dropWhile isSpace (entryBody e),
                 length (entryText e))"
proof -
  let ?ty = "entryType e" and ?k = "entryKey e" and ?body = "entryBody e"
  let ?ws = "takeWhile isSpace ?body" and ?t = "dropWhile isSpace ?body"
  let ?tail = "CHR 0x0A # CHR ''}'' # rest"
  from assms have ty: "?ty \<noteq> []" "list_all isWordChar ?ty"
    and k: "?k \<noteq> []" "CHR '','' \<notin> set ?k" by (simp_all add: wellFormedEntry_def)
  note b = body_props [OF assms]
  have whole: "entryText e @ rest = CHR ''@'' # ?ty @ CHR ''{'' # ?k @ CHR '','' # ?body @ ?tail"
    by (simp add: entryText_def)
  let ?s2 = "CHR ''{'' # ?k @ CHR '','' # ?body @ ?tail"
  have h2: "?s2 = [] \<or> \<not> isWordChar (hd ?s2)" by (simp add: isWordChar_def isDigit_def)
  have t1: "takeWhile isWordChar (?ty @ ?s2) = ?ty" "dropWhile isWordChar (?ty @ ?s2) = ?s2"
    using takeWhile_class [OF ty(2) h2] dropWhile_class [OF ty(2) h2] by simp_all
  have t3: "takeWhile (\<lambda>c. c \<noteq> CHR '','') (?k @ CHR '','' # ?body @ ?tail) = ?k"
    "dropWhile (\<lambda>c. c \<noteq> CHR '','') (?k @ CHR '','' # ?body @ ?tail) = CHR '','' # ?body @ ?tail"
    using takeWhile_upto [OF k(2)] dropWhile_upto [OF k(2)] by simp_all
  have ws: "list_all isSpace ?ws" by (auto simp: list_all_iff dest: set_takeWhileD)
  have hdt: "\<not> isSpace (hd ?t)" using b(2) hd_dropWhile by metis
  then have h5: "?t @ ?tail = [] \<or> \<not> isSpace (hd (?t @ ?tail))" using b(2) by simp
  have parts: "?body @ ?tail = ?ws @ (?t @ ?tail)" by simp
  have t5: "takeWhile isSpace (?body @ ?tail) = ?ws"
    unfolding parts by (rule takeWhile_class [OF ws h5])
  have t6: "dropWhile isSpace (?body @ ?tail) = ?t @ ?tail"
    unfolding parts by (rule dropWhile_class [OF ws h5])
  have fs: "findSub [CHR 0x0A, CHR ''}''] (?t @ ?tail) = Some ?t"
    by (rule findSub_lineBrace [OF b(1)])
  have "length (?ws @ ?t) = length ?body" by simp
  then have len: "length ?ws + length ?t = length ?body" by (simp only: length_append)
  show ?thesis
    unfolding whole matchEntryAt_def
    using ty(1) k(1) len by (simp add: t1 t3 t5 t6 fs Let_def entryText_def)
qed

lemma entriesFrom_skip: "entriesFrom (length xs) (xs @ rest) = entriesFrom 0 rest"
  by (induction xs) auto

lemma entriesFrom_gap: "CHR ''@'' \<notin> set g \<Longrightarrow> entriesFrom 0 (g @ s) = entriesFrom 0 s"
  by (induction g) (auto simp: matchEntryAt_def)

lemma entriesFrom_entry:
  assumes "wellFormedEntry e"
  shows "entriesFrom 0 (entryGap e @ entryText e @ rest)
         = (entryType e, entryKey e, dropWhile isSpace (entryBody e)) # entriesFrom 0 rest"
proof -
  have g: "CHR ''@'' \<notin> set (entryGap e)" using assms by (simp add: wellFormedEntry_def)
  obtain cs where c: "entryText e = CHR ''@'' # cs" by (simp add: entryText_def)
  have m: "matchEntryAt (CHR ''@'' # cs @ rest)
           = Some (entryType e, entryKey e, dropWhile isSpace (entryBody e), Suc (length cs))"
    using matchEntryAt_entryText [OF assms, of rest] c by simp
  have "entriesFrom 0 (entryGap e @ entryText e @ rest) = entriesFrom 0 (entryText e @ rest)"
    by (rule entriesFrom_gap [OF g])
  also have "\<dots> = (entryType e, entryKey e, dropWhile isSpace (entryBody e))
                    # entriesFrom (length cs) (cs @ rest)"
    using m c by simp
  finally show ?thesis by (simp add: entriesFrom_skip)
qed

lemma entries_bibtexText:
  "list_all wellFormedEntry es \<Longrightarrow> CHR ''@'' \<notin> set rest \<Longrightarrow>
   entries (bibtexText es rest)
     = map (\<lambda>e. (entryType e, entryKey e, dropWhile isSpace (entryBody e))) es"
proof (induction es)
  case Nil
  then show ?case
    using entriesFrom_gap [of rest "[]"] by (simp add: entries_def bibtexText_def)
next
  case (Cons e es)
  then show ?case
    using entriesFrom_entry [of e "concat (map (\<lambda>e. entryGap e @ entryText e) es) @ rest"]
    by (simp add: entries_def bibtexText_def)
qed

lemma toPublication_entry:
  assumes "wellFormedEntry e"
  shows "toPublication currentYear (entryType e, entryKey e, dropWhile isSpace (entryBody e))
         = (if titledArticle e then Some (candidate currentYear e) else None)"
proof -
  let ?g = "fieldGiven e"
  have a: "(if truthyStr (?g ''author'') then splitOn (fieldOr (?g ''author'') []) '' and '' else [])
           = (case ?g ''author'' of None \<Rightarrow> []
              | Some a \<Rightarrow> if a = [] then [] else splitOn a '' and '')"
    by (cases "?g ''author''") (simp_all add: truthyStr_def fieldOr_def strOr_def)
  have j: "fieldOr (?g ''journal'') ''Unknown Journal''
           = (case ?g ''journal'' of None \<Rightarrow> ''Unknown Journal''
              | Some j \<Rightarrow> if j = [] then ''Unknown Journal'' else j)"
    by (cases "?g ''journal''") (simp_all add: fieldOr_def strOr_def)
  have y: "yearOr (?g ''year'') currentYear
           = (case ?g ''year'' of None \<Rightarrow> Num currentYear
              | Some y \<Rightarrow> (case parseInt y of NaN \<Rightarrow> Num currentYear
                           | Num n \<Rightarrow> if n = 0 then Num currentYear else Num n))"
    by (cases "?g ''year''") (auto simp: yearOr_def split: jsnum.splits)
  have d: "(if truthyStr (?g ''doi'') then ?g ''doi'' else None)
           = (case ?g ''doi'' of None \<Rightarrow> None | Some d \<Rightarrow> if d = [] then None else Some d)"
    by (cases "?g ''doi''") (simp_all add: truthyStr_def)
  have b: "fieldOr (?g ''abstract'') [] = (case ?g ''abstract'' of None \<Rightarrow> [] | Some a \<Rightarrow> a)"
    by (cases "?g ''abstract''") (simp_all add: fieldOr_def strOr_def)
  have t: "titledArticle e \<longleftrightarrow> toLowerCase (entryType e) = ''article'' \<and> truthyStr (?g ''title'')"
    by (simp add: titledArticle_def truthyStr_def)
  show ?thesis
    unfolding toPublication_def candidate_def
    by (simp only: prod.case Let_def fieldsOf_body [OF assms] a j y d b t)
qed

lemma map_filter_entries:
  "list_all wellFormedEntry es \<Longrightarrow>
   List.map_filter (toPublication currentYear)
     (map (\<lambda>e. (entryType e, entryKey e, dropWhile isSpace (entryBody e))) es)
   = map (candidate currentYear) (filter titledArticle es)"
  by (induction es) (simp_all add: List.map_filter_simps toPublication_entry)

text \<open>
  C9 (as amended). For a BibTeX file whose entries are each closed by a brace at the
  start of a line, with at least one field, values without a closing brace that do not
  end in a line break, and no \<open>@\<close> between the entries, \<open>parseBibtexFile\<close> returns
  the candidates of exactly the entries whose type reads \<open>article\<close> (in any letter
  case) and that have a non-empty title, in the order of the file; every other entry
  is ignored. In a candidate a missing \<open>author\<close> field gives the empty author list,
  a missing \<open>journal\<close> field gives \<open>Unknown Journal\<close>, and a missing \<open>year\<close>
  field gives the current year.
\<close>

theorem parseBibtexFile_articles_with_defaults:
  assumes "list_all wellFormedEntry es" and "CHR ''@'' \<notin> set rest"
  shows "parseBibtexFile currentYear (Some (bibtexText es rest))
           = Some (map (candidate currentYear) (filter titledArticle es))
     \<and> (fieldGiven e ''author'' = None \<longrightarrow> authors (candidate currentYear e) = Some [])
     \<and> (fieldGiven e ''journal'' = None \<longrightarrow>
           journal (candidate currentYear e) = Some ''Unknown Journal'')
     \<and> (fieldGiven e ''year'' = None \<longrightarrow>
           year (candidate currentYear e) = Some (Num currentYear))"
proof -
  have "parseBibtexFile currentYear (Some (bibtexText es rest))
         = Some (map (candidate currentYear) (filter titledArticle es))"
    using assms by (simp add: parseBibtexFile_def entries_bibtexText map_filter_entries)
  then show ?thesis by (simp add: candidate_def)
qed

lemma text_misc_article: "bibtexText [miscEntry, articleEntry] [] = miscThenArticle"
  by (simp add: bibtexText_def entryText_def entryBody_def fieldText_def fieldCore_def
      miscEntry_def articleEntry_def titleOnly_def miscThenArticle_def)

theorem parseBibtexFile_articles_with_defaults_witness:
  "parseBibtexFile 2025 (Some miscThenArticle)
     = Some [\<lparr>pub_id = Some ''k2'', title = Some ''T'', authors = Some [],
               journal = Some ''Unknown Journal'', year = Some (Num 2025), doi = None,
               abstract = Some [], pub_image = None, pub_type = Some ''journal'',
               status = Some ''published'', awards = None\<rparr>]"
proof -
  have wf: "list_all wellFormedEntry [miscEntry, articleEntry]"
    by (simp add: wellFormedEntry_def wellFormedField_def isFiller_def miscEntry_def
        articleEntry_def titleOnly_def isWordChar_def isDigit_def isSpace_def)
  have r: "CHR ''@'' \<notin> set []" by simp
  have f: "filter titledArticle [miscEntry, articleEntry] = [articleEntry]"
    by (simp add: titledArticle_def fieldGiven_def miscEntry_def articleEntry_def titleOnly_def
        toLowerCase_def lowerChar_def)
  have c: "candidate 2025 articleEntry
     = \<lparr>pub_id = Some ''k2'', title = Some ''T'', authors = Some [],
               journal = Some ''Unknown Journal'', year = Some (Num 2025), doi = None,
               abstract = Some [], pub_image = None, pub_type = Some ''journal'',
               status = Some ''published'', awards = None\<rparr>"
    by (simp add: candidate_def fieldGiven_def articleEntry_def titleOnly_def)
  show ?thesis
    using parseBibtexFile_articles_with_defaults [OF wf r, of 2025, THEN conjunct1]
    unfolding text_misc_article f by (simp add: c)
qed

lemma entries_articleThenBook:
  "entries articleThenBook
     = [(''article'', ''a1'',
         ''title={X}}'' @ [CHR 0x0A] @ ''@book{b1,'' @ [CHR 0x0A] @ ''  title={Y},'' @ [CHR 0x0A]
         @ ''  author={Z},'' @ [CHR 0x0A] @ ''  year={1999}'')]"
  by (simp add: articleThenBook_def entries_def matchEntryAt_def isWordChar_def isDigit_def
      isSpace_def)

text \<open>
  The claim as stated fails. In this file the article is written on one line, so the
  entry pattern runs on to the closing brace of the book that follows: the one candidate
  has the key of the article and the title, author and year of the book. An entry that
  is no article is not ignored, and the fields the article lacks get no default.
\<close>

theorem parseBibtexFile_article_then_book_counterexample:
  "parseBibtexFile 2025 (Some articleThenBook)
     = Some [\<lparr>pub_id = Some ''a1'', title = Some ''Y'', authors = Some [''Z''],
               journal = Some ''Unknown Journal'', year = Some (Num 1999), doi = None,
               abstract = Some [], pub_image = None, pub_type = Some ''journal'',
               status = Some ''published'', awards = None\<rparr>]"
  by (simp add: parseBibtexFile_def entries_articleThenBook List.map_filter_simps
      toPublication_def fieldsOf_def matchFieldAt_def isWordChar_def isDigit_def isSpace_def
      Let_def toLowerCase_def lowerChar_def truthyStr_def
      fieldOr_def strOr_def yearOr_def parseInt_def isRadixDigit_def digitValue_def
      radixValue_def splitOn_def)

text \<open>
  C6 (as amended). The entry \<open>@article{k1, title={T}, year={2022}\<close> closed by a brace
  at the start of the next line gives one candidate publication, with
  \<open>authors = []\<close> and \<open>year = 2022\<close>.
\<close>

theorem parseBibtexFile_entry_with_line_break:
  "parseBibtexFile currentYear (Some entryWithLineBreak)
     = Some [\<lparr>pub_id = Some ''k1'', title = Some ''T'', authors = Some [],
               journal = Some ''Unknown Journal'', year = Some (Num 2022), doi = None,
               abstract = Some [], pub_image = None, pub_type = Some ''journal'',
               status = Some ''published'', awards = None\<rparr>]"
  by (simp add: entryWithLineBreak_def parseBibtexFile_def entries_def matchEntryAt_def
      isWordChar_def isDigit_def isSpace_def List.map_filter_simps toPublication_def
      fieldsOf_def matchFieldAt_def Let_def toLowerCase_def lowerChar_def truthyStr_def
      fieldOr_def strOr_def yearOr_def parseInt_def isRadixDigit_def digitValue_def
      radixValue_def)

theorem parseBibtexFile_entry_with_line_break_witness:
  "map_option (map (\<lambda>p. (authors p, year p)))
      (parseBibtexFile 2025 (Some entryWithLineBreak))
     = Some [(Some [], Some (Num 2022))]"
  using parseBibtexFile_entry_with_line_break [of 2025] by simp

text \<open>
  The entry written on one line, as the claim gives it, is not matched (the entry
  pattern ends with a newline and a brace), and no candidate is produced.
\<close>

theorem parseBibtexFile_one_line_counterexample:
  "parseBibtexFile 2025 (Some oneLineEntry) = Some []"
  by (simp add: oneLineEntry_def parseBibtexFile_def entries_def matchEntryAt_def
      isWordChar_def isDigit_def isSpace_def List.map_filter_simps)

subsection \<open>Template rendering\<close>
















text \<open>
  In every runtime in which the \<open>constructor\<close> that a record inherits is a function
  named \<open>Object\<close>, the placeholder \<open>{{constructor.name}}\<close> is replaced by
  \<open>Object\<close> on a record that has no property \<open>constructor\<close>.
\<close>

lemma renderTemplate_constructor_name:
  assumes "map_of kvs ''constructor'' = None"
    and "inherited rt (JObject kvs) ''constructor'' = Some (Builtin object)"
    and "builtinGet rt object ''name'' = Some (Data (JString ''Object''))"
  shows "renderTemplate rt ''{{constructor.name}}'' (JObject kvs) = Some ''Object''"
  using assms
  by (simp add: renderTemplate_def matchPlaceholderAt_def isPath_def splitOn_def
      isWordChar_def isDigit_def replacement_def member_def)

subsection \<open>JSON texts and the data store\<close>

lemma hexDigit_value:
  assumes "d < 16"
  shows "digitValue (''0123456789abcdef'' ! d) = Some d"
proof -
  from assms have "d = 0 \<or> d = 1 \<or> d = 2 \<or> d = 3 \<or> d = 4 \<or> d = 5 \<or> d = 6 \<or> d = 7
      \<or> d = 8 \<or> d = 9 \<or> d = 10 \<or> d = 11 \<or> d = 12 \<or> d = 13 \<or> d = 14 \<or> d = 15" by arith
  then show ?thesis
    by (elim disjE) (simp_all add: digitValue_def isDigit_def)
qed

lemma control_escape:
  assumes "(of_char c :: nat) < 32"
  shows "list_all (isRadixDigit 16)
           [CHR ''0'', CHR ''0'', ''0123456789abcdef'' ! (of_char c div 16),
            ''0123456789abcdef'' ! (of_char c mod 16)]"
    and "radixValue 16
           [CHR ''0'', CHR ''0'', ''0123456789abcdef'' ! (of_char c div 16),
            ''0123456789abcdef'' ! (of_char c mod 16)] = of_char c"
proof -
  let ?n = "of_char c :: nat"
  have a: "?n div 16 < 16" and b: "?n mod 16 < 16" using assms by simp_all
  have z: "digitValue (CHR ''0'') = Some 0" by (simp add: digitValue_def isDigit_def)
  show "list_all (isRadixDigit 16)
           [CHR ''0'', CHR ''0'', ''0123456789abcdef'' ! (?n div 16),
            ''0123456789abcdef'' ! (?n mod 16)]"
    using hexDigit_value [OF a] hexDigit_value [OF b] a b z
    by (simp add: isRadixDigit_def)
  show "radixValue 16
           [CHR ''0'', CHR ''0'', ''0123456789abcdef'' ! (?n div 16),
            ''0123456789abcdef'' ! (?n mod 16)] = ?n"
    using hexDigit_value [OF a] hexDigit_value [OF b] z
    by (simp add: radixValue_def)
qed

lemma parseString_quoteChar:
  assumes "parseString t = Some (s, rest)"
  shows "parseString (quoteChar c @ t) = Some (c # s, rest)"
proof -
  consider (short) "c \<in> {CHR 0x22, CHR 0x5C, CHR 0x08, CHR 0x0C, CHR 0x0A, CHR 0x0D, CHR 0x09}"
    | (ctl) "c \<notin> {CHR 0x22, CHR 0x5C, CHR 0x08, CHR 0x0C, CHR 0x0A, CHR 0x0D, CHR 0x09}"
        "(of_char c :: nat) < 32"
    | (plain) "c \<notin> {CHR 0x22, CHR 0x5C, CHR 0x08, CHR 0x0C, CHR 0x0A, CHR 0x0D, CHR 0x09}"
        "\<not> (of_char c :: nat) < 32"
    by blast
  then show ?thesis
  proof cases
    case short
    then show ?thesis using assms by (auto simp: quoteChar_def unescape_def)
  next
    case ctl
    have u: "utf8 (of_char c) = Some [c]" using ctl(2) by (simp add: utf8_def)
    show ?thesis
      using ctl assms control_escape [OF ctl(2)] u
      by (simp add: quoteChar_def Let_def)
  next
    case plain
    then show ?thesis using assms by (simp add: quoteChar_def)
  qed
qed

lemma parseString_quoted:
  "parseString (concat (map quoteChar s) @ CHR 0x22 # rest) = Some (s, rest)"
  by (induction s) (simp_all add: parseString_quoteChar)


lemma digit_char:
  assumes "d < 10"
  shows "isDigit (''0123456789'' ! d) \<and> digitValue (''0123456789'' ! d) = Some d
     \<and> (''0123456789'' ! d = CHR ''0'' \<longleftrightarrow> d = 0)"
proof -
  from assms have "d = 0 \<or> d = 1 \<or> d = 2 \<or> d = 3 \<or> d = 4 \<or> d = 5 \<or> d = 6 \<or> d = 7
      \<or> d = 8 \<or> d = 9" by arith
  then show ?thesis
    by (elim disjE) (simp_all add: digitValue_def isDigit_def)
qed

lemma radixValue_snoc:
  "radixValue R (xs @ [c]) = radixValue R xs * R + (case digitValue c of Some d \<Rightarrow> d | None \<Rightarrow> 0)"
  by (simp add: radixValue_def)

lemma showNat_small: "n < 10 \<Longrightarrow> showNat n = [''0123456789'' ! n]"
  by (subst showNat.simps) simp

lemma showNat_big:
  "\<not> n < 10 \<Longrightarrow> showNat n = showNat (n div 10) @ [''0123456789'' ! (n mod 10)]"
  by (subst showNat.simps) simp

lemma showNat_props:
  "showNat n \<noteq> [] \<and> list_all isDigit (showNat n) \<and> radixValue 10 (showNat n) = n
     \<and> (0 < n \<longrightarrow> hd (showNat n) \<noteq> CHR ''0'')"
proof (induction n rule: showNat.induct)
  case (1 n)
  show ?case
  proof (cases "n < 10")
    case True
    define c where "c = ''0123456789'' ! n"
    have eq: "showNat n = [c]" using showNat_small [OF True] by (simp add: c_def)
    have dc: "isDigit c" "digitValue c = Some n" "c = CHR ''0'' \<longleftrightarrow> n = 0"
      using digit_char [OF True] unfolding c_def by blast+
    have "radixValue 10 [c] = n" using dc(2) by (simp add: radixValue_def)
    moreover have "0 < n \<longrightarrow> hd [c] \<noteq> CHR ''0''" using dc(3) by simp
    ultimately show ?thesis using dc(1) unfolding eq by simp
  next
    case False
    define m where "m = n div 10"
    define c where "c = ''0123456789'' ! (n mod 10)"
    have eq: "showNat n = showNat m @ [c]"
      using showNat_big [OF False] by (simp add: m_def c_def)
    have nz: "0 < m" using False by (simp add: m_def)
    from 1 [OF False] have ih: "showNat m \<noteq> []" "list_all isDigit (showNat m)"
      "radixValue 10 (showNat m) = m" "0 < m \<longrightarrow> hd (showNat m) \<noteq> CHR ''0''"
      unfolding m_def by blast+
    have d: "n mod 10 < 10" by simp
    have dc: "isDigit c" "digitValue c = Some (n mod 10)"
      using digit_char [OF d] by (simp_all add: c_def)
    have v: "m * 10 + n mod 10 = n" by (simp add: m_def)
    have 1: "showNat n \<noteq> []" using eq by simp
    have 2: "list_all isDigit (showNat n)" using eq ih(2) dc(1) by simp
    have 3: "radixValue 10 (showNat n) = n"
      using ih(3) dc(2) v by (simp add: eq radixValue_snoc)
    have "hd (showNat m) \<noteq> CHR ''0''" using ih(4) nz by blast
    then have 4: "hd (showNat n) \<noteq> CHR ''0''"
      using ih(1) by (simp add: eq)
    from 1 2 3 4 show ?thesis by blast
  qed
qed

lemma showNat_nonempty: "showNat n \<noteq> []"
  and showNat_digits: "list_all isDigit (showNat n)"
  and showNat_value: "radixValue 10 (showNat n) = n"
  using showNat_props [of n] by blast+

lemma showNat_lead: "\<not> (1 < length (showNat n) \<and> prefix ''0'' (showNat n))"
proof (cases "n = 0")
  case True
  then show ?thesis by (simp add: showNat_small)
next
  case False
  then have "hd (showNat n) \<noteq> CHR ''0''" using showNat_props [of n] by blast
  then show ?thesis using showNat_nonempty [of n] by (cases "showNat n") auto
qed

lemma takeWhile_run:
  "list_all P xs \<Longrightarrow> (case rest of [] \<Rightarrow> True | c # cs \<Rightarrow> \<not> P c) \<Longrightarrow>
     takeWhile P (xs @ rest) = xs \<and> dropWhile P (xs @ rest) = rest"
  by (induction xs) (auto split: list.splits)

lemma parseNumber_digits:
  assumes "endsValue rest" and "ds \<noteq> []" and "list_all isDigit ds"
    and "\<not> (1 < length ds \<and> prefix ''0'' ds)"
  shows "parseNumber (ds @ rest) = Some (JNumber (Num (int (radixValue 10 ds))), rest)"
    and "parseNumber (CHR ''-'' # ds @ rest)
           = Some (JNumber (Num (- int (radixValue 10 ds))), rest)"
proof -
  have r: "case rest of [] \<Rightarrow> True | c # cs \<Rightarrow> \<not> isDigit c"
    using assms(1) by (simp add: endsValue_def split: list.splits)
  have tw: "takeWhile isDigit (ds @ rest) = ds"
    and dw: "dropWhile isDigit (ds @ rest) = rest"
    using takeWhile_run [OF assms(3) r] by simp_all
  obtain c cs where c: "ds = c # cs" using assms(2) by (cases ds) auto
  have "isDigit c" using assms(3) c by simp
  then have nm: "c \<noteq> CHR ''-''" by (auto simp: isDigit_def)
  have e: "\<not> (prefix ''.'' rest \<or> prefix ''e'' rest \<or> prefix ''E'' rest)"
    using assms(1) by (auto simp: endsValue_def prefix_def split: list.splits)
  have np: "\<not> prefix ''-'' (ds @ rest)" using c nm by simp
  show "parseNumber (ds @ rest) = Some (JNumber (Num (int (radixValue 10 ds))), rest)"
    unfolding parseNumber_def Let_def using np tw dw assms(2,4) e by simp
  show "parseNumber (CHR ''-'' # ds @ rest)
           = Some (JNumber (Num (- int (radixValue 10 ds))), rest)"
    unfolding parseNumber_def Let_def using tw dw assms(2,4) e by simp
qed

lemma parseNumber_showInt:
  assumes "endsValue rest"
  shows "parseNumber (showInt i @ rest) = Some (JNumber (Num i), rest)"
proof (cases "i < 0")
  case False
  have "parseNumber (showNat (nat i) @ rest)
          = Some (JNumber (Num (int (radixValue 10 (showNat (nat i))))), rest)"
    by (rule parseNumber_digits(1) [OF assms showNat_nonempty showNat_digits showNat_lead])
  moreover have "int (radixValue 10 (showNat (nat i))) = i"
    using False by (simp add: showNat_value)
  moreover have "showInt i = showNat (nat i)" using False by (simp add: showInt_def)
  ultimately show ?thesis by simp
next
  case True
  have "parseNumber (CHR ''-'' # showNat (nat (- i)) @ rest)
          = Some (JNumber (Num (- int (radixValue 10 (showNat (nat (- i)))))), rest)"
    by (rule parseNumber_digits(2) [OF assms showNat_nonempty showNat_digits showNat_lead])
  moreover have "- int (radixValue 10 (showNat (nat (- i)))) = i"
    using True by (simp add: showNat_value)
  moreover have "showInt i = CHR ''-'' # showNat (nat (- i))"
    using True by (simp add: showInt_def)
  ultimately show ?thesis by simp
qed

lemma showInt_start:
  "\<exists>c cs. showInt i = c # cs \<and> (isDigit c \<or> c = CHR ''-'')"
proof (cases "i < 0")
  case True
  then show ?thesis by (simp add: showInt_def)
next
  case False
  obtain c cs where c: "showNat (nat i) = c # cs"
    using showNat_nonempty [of "nat i"] by (cases "showNat (nat i)") simp_all
  then have "isDigit c" using showNat_digits [of "nat i"] by simp
  with c False show ?thesis by (simp add: showInt_def)
qed

lemma valueStart_not:
  "valueStart c \<Longrightarrow> \<not> isJsonSpace c \<and> c \<noteq> CHR '']'' \<and> c \<noteq> CHR ''}'' \<and> c \<noteq> CHR '',''"
  by (auto simp: valueStart_def isJsonSpace_def isDigit_def)

lemma serialize_None: "serialize ind v = None \<longleftrightarrow> v = JUndefined"
  by (cases v) simp_all

lemma serialize_array:
  "serialize ind (JArray xs) = Some (wrap ''['' '']'' ind (map (elemText (ind + 2)) xs))"
proof -
  have "(\<lambda>x. case serialize (ind + 2) x of None \<Rightarrow> ''null'' | Some t \<Rightarrow> t)
          = elemText (ind + 2)"
    by (rule ext) (simp add: elemText_def)
  then show ?thesis by (simp del: add_2_eq_Suc add_2_eq_Suc')
qed

lemma members_concat:
  "list_all (\<lambda>(k, v). isJSON v) kvs \<Longrightarrow>
   concat (map (\<lambda>(k, v). case serialize ind v of None \<Rightarrow> []
                          | Some t \<Rightarrow> [quoteJSON k @ '': '' @ t]) kvs)
     = map (memberText ind) kvs"
proof (induction kvs)
  case Nil
  show ?case by simp
next
  case (Cons kv kvs)
  obtain k v where kv: "kv = (k, v)" by (cases kv)
  with Cons.prems have "isJSON v" by simp
  then have "v \<noteq> JUndefined" by auto
  then obtain t where "serialize ind v = Some t"
    using serialize_None [of ind v] by (cases "serialize ind v") auto
  then show ?case using Cons kv by (simp add: memberText_def elemText_def)
qed

lemma serialize_object:
  "list_all (\<lambda>(k, v). isJSON v) kvs \<Longrightarrow>
   serialize ind (JObject kvs) = Some (wrap ''{'' ''}'' ind (map (memberText (ind + 2)) kvs))"
  by (simp add: members_concat)

lemma elemText_start: "\<exists>c cs. elemText ind v = c # cs \<and> valueStart c"
proof (cases v)
  case (JNumber n)
  show ?thesis
  proof (cases n)
    case (Num i)
    from showInt_start [of i] obtain c cs where "showInt i = c # cs" "isDigit c \<or> c = CHR ''-''"
      by blast
    then show ?thesis using JNumber Num by (auto simp: elemText_def valueStart_def)
  next
    case NaN
    then show ?thesis using JNumber by (simp add: elemText_def valueStart_def)
  qed
qed (auto simp: elemText_def valueStart_def quoteJSON_def wrap_def)

lemma memberText_start: "\<exists>cs. memberText ind kv = CHR 0x22 # cs"
  by (simp add: memberText_def quoteJSON_def)

lemma skipWs_pad: "\<not> isJsonSpace c \<Longrightarrow> skipWs (pad n @ c # cs) = c # cs"
  by (induction n) (simp_all add: skipWs_def pad_def isJsonSpace_def)

lemma skipWs_newline_pad: "\<not> isJsonSpace c \<Longrightarrow> skipWs (newline @ pad n @ c # cs) = c # cs"
  using skipWs_pad [of c n cs] by (simp add: skipWs_def newline_def isJsonSpace_def)

lemma skipWs_clean: "\<not> isJsonSpace c \<Longrightarrow> skipWs (c # cs) = c # cs"
  by (simp add: skipWs_def)

lemma join_start:
  "xs \<noteq> [] \<Longrightarrow> \<exists>cs. f (hd xs) = c # cs \<Longrightarrow> \<exists>cs. join (map f xs) sep = c # cs"
  by (induction "map f xs" sep arbitrary: xs rule: join.induct) auto


lemma endsValue_simps:
  "endsValue []" "endsValue (newline @ t)" "endsValue (separator i @ t)"
  by (simp_all add: endsValue_def newline_def separator_def isDigit_def)

lemma length_join_Cons:
  "ys \<noteq> [] \<Longrightarrow> length (join (x # ys) sep) = length x + length sep + length (join ys sep)"
  by (cases ys) simp_all

lemma parseElements_joined:
  assumes ih: "\<And>x f rest. x \<in> set xs \<Longrightarrow> length (elemText i x) \<le> f \<Longrightarrow> endsValue rest \<Longrightarrow>
                 parseValue f (elemText i x @ rest) = Some (x, rest)"
    and "xs \<noteq> []"
    and "length (join (map (elemText i) xs) (separator i)) < f"
  shows "parseElements f (join (map (elemText i) xs) (separator i)
                           @ newline @ pad j @ CHR '']'' # rest) = Some (xs, rest)"
  using assms
proof (induction xs arbitrary: f)
  case Nil
  then show ?case by simp
next
  case (Cons x ys)
  from Cons.prems(3) obtain f' where f: "f = Suc f'" by (cases f) auto
  show ?case
  proof (cases "ys = []")
    case True
    let ?R = "newline @ pad j @ CHR '']'' # rest"
    have len: "length (elemText i x) \<le> f'" using Cons.prems(3) True f by simp
    have pv: "parseValue f' (elemText i x @ ?R) = Some (x, ?R)"
      using Cons.prems(1) [of x f' ?R] len endsValue_simps(2) by simp
    have sk: "skipWs ?R = CHR '']'' # rest"
      using skipWs_newline_pad [of "CHR '']''" j rest] by (simp add: isJsonSpace_def)
    show ?thesis using True f pv sk by simp
  next
    case False
    let ?tail = "join (map (elemText i) ys) (separator i) @ newline @ pad j @ CHR '']'' # rest"
    let ?R = "separator i @ ?tail"
    have jl: "length (join (map (elemText i) (x # ys)) (separator i))
              = length (elemText i x) + length (separator i)
                + length (join (map (elemText i) ys) (separator i))"
      using False length_join_Cons [of "map (elemText i) ys" "elemText i x" "separator i"] by simp
    have len: "length (elemText i x) \<le> f'" using Cons.prems(3) f jl by simp
    have len2: "length (join (map (elemText i) ys) (separator i)) < f'"
      using Cons.prems(3) f jl by (simp add: separator_def)
    have jx: "join (map (elemText i) (x # ys)) (separator i)
              = elemText i x @ separator i @ join (map (elemText i) ys) (separator i)"
      using False by (cases ys) simp_all
    have pv: "parseValue f' (elemText i x @ ?R) = Some (x, ?R)"
      using Cons.prems(1) [of x f' ?R] len endsValue_simps(3) by simp
    obtain c cs where c: "elemText i (hd ys) = c # cs" "valueStart c"
      using elemText_start by blast
    then obtain cs' where js: "join (map (elemText i) ys) (separator i) = c # cs'"
      using join_start [of ys "elemText i" c "separator i"] False by blast
    have clean: "\<not> isJsonSpace c" using valueStart_not [OF c(2)] by simp
    have sk1: "skipWs ?R = ?R" by (simp add: separator_def skipWs_def isJsonSpace_def)
    have sk2: "skipWs (drop 1 ?R) = ?tail"
      using skipWs_newline_pad [OF clean, of i] js by (simp add: separator_def)
    have ih': "parseValue g (elemText i y @ R) = Some (y, R)"
      if "y \<in> set ys" "length (elemText i y) \<le> g" "endsValue R" for y g R
      using Cons.prems(1) [of y g R] that by simp
    have rec: "parseElements f' ?tail = Some (ys, rest)"
      by (rule Cons.IH [OF ih' False len2])
    have "parseElements (Suc f') (elemText i x @ ?R) = Some (x # ys, rest)"
      using pv sk1 sk2 rec by (simp add: separator_def)
    then show ?thesis using f jx by simp
  qed
qed


lemma parseMembers_joined:
  assumes ih: "\<And>k v f rest. (k, v) \<in> set kvs \<Longrightarrow> length (elemText i v) \<le> f \<Longrightarrow>
                 endsValue rest \<Longrightarrow> parseValue f (elemText i v @ rest) = Some (v, rest)"
    and "kvs \<noteq> []"
    and "length (join (map (memberText i) kvs) (separator i)) < f"
  shows "parseMembers f acc (join (map (memberText i) kvs) (separator i)
                               @ newline @ pad j @ CHR ''}'' # rest)
           = Some (foldl (\<lambda>obj (k, v). objSet obj k v) acc kvs, rest)"
  using assms
proof (induction kvs arbitrary: f acc)
  case Nil
  then show ?case by simp
next
  case (Cons kv ys)
  obtain k v where kv: "kv = (k, v)" by (cases kv)
  from Cons.prems(3) obtain f' where f: "f = Suc f'" by (cases f) auto
  obtain c cs where c: "elemText i v = c # cs" "valueStart c"
    using elemText_start by blast
  have clean: "\<not> isJsonSpace c" using valueStart_not [OF c(2)] by simp
  have mt: "memberText i kv
            = CHR 0x22 # concat (map quoteChar k) @ CHR 0x22 # CHR '':'' # CHR '' '' # elemText i v"
    by (simp add: memberText_def quoteJSON_def kv)
  have ml: "length (elemText i v) < length (memberText i kv)" by (simp add: mt)
  have head: "\<And>R. parseString (concat (map quoteChar k) @ CHR 0x22 # R) = Some (k, R)"
    by (rule parseString_quoted)
  have colon: "\<And>R. skipWs (CHR '':'' # R) = CHR '':'' # R"
    by (simp add: skipWs_def isJsonSpace_def)
  have sp: "\<And>R. skipWs (CHR '' '' # elemText i v @ R) = elemText i v @ R"
    using clean c(1) by (simp add: skipWs_def isJsonSpace_def)
  show ?case
  proof (cases "ys = []")
    case True
    let ?R = "newline @ pad j @ CHR ''}'' # rest"
    have len: "length (elemText i v) \<le> f'" using Cons.prems(3) True f ml by simp
    have pv: "parseValue f' (elemText i v @ ?R) = Some (v, ?R)"
      using Cons.prems(1) [of k v f' ?R] len endsValue_simps(2) kv by simp
    have sk: "skipWs ?R = CHR ''}'' # rest"
      using skipWs_newline_pad [of "CHR ''}''" j rest] by (simp add: isJsonSpace_def)
    have "parseMembers (Suc f') acc (memberText i kv @ ?R) = Some (objSet acc k v, rest)"
      using head colon sp pv sk by (simp add: mt)
    then show ?thesis using True f kv by simp
  next
    case False
    let ?tail = "join (map (memberText i) ys) (separator i) @ newline @ pad j @ CHR ''}'' # rest"
    let ?R = "separator i @ ?tail"
    have jl: "length (join (map (memberText i) (kv # ys)) (separator i))
              = length (memberText i kv) + length (separator i)
                + length (join (map (memberText i) ys) (separator i))"
      using False length_join_Cons [of "map (memberText i) ys" "memberText i kv" "separator i"]
      by simp
    have len: "length (elemText i v) \<le> f'" using Cons.prems(3) f jl ml by simp
    have len2: "length (join (map (memberText i) ys) (separator i)) < f'"
      using Cons.prems(3) f jl by (simp add: separator_def)
    have jx: "join (map (memberText i) (kv # ys)) (separator i)
              = memberText i kv @ separator i @ join (map (memberText i) ys) (separator i)"
      using False by (cases ys) simp_all
    have pv: "parseValue f' (elemText i v @ ?R) = Some (v, ?R)"
      using Cons.prems(1) [of k v f' ?R] len endsValue_simps(3) kv by simp
    obtain cs' where "memberText i (hd ys) = CHR 0x22 # cs'"
      using memberText_start by blast
    then obtain cs'' where js: "join (map (memberText i) ys) (separator i) = CHR 0x22 # cs''"
      using join_start [of ys "memberText i" "CHR 0x22" "separator i"] False by blast
    have sk1: "skipWs ?R = ?R" by (simp add: separator_def skipWs_def isJsonSpace_def)
    have sk2: "skipWs (drop 1 ?R) = ?tail"
      using skipWs_newline_pad [of "CHR 0x22" i] js
      by (simp add: separator_def isJsonSpace_def)
    have ih': "parseValue g (elemText i v' @ R) = Some (v', R)"
      if "(k', v') \<in> set ys" "length (elemText i v') \<le> g" "endsValue R" for k' v' g R
      using Cons.prems(1) [of k' v' g R] that by simp
    have rec: "parseMembers f' (objSet acc k v) ?tail
               = Some (foldl (\<lambda>obj (k, v). objSet obj k v) (objSet acc k v) ys, rest)"
      by (rule Cons.IH [OF ih' False len2])
    have "parseMembers (Suc f') acc (memberText i kv @ ?R)
            = Some (foldl (\<lambda>obj (k, v). objSet obj k v) (objSet acc k v) ys, rest)"
      using head colon sp pv sk1 sk2 rec by (simp add: mt separator_def)
    then show ?thesis using f jx kv by simp
  qed
qed


lemma parseValue_start:
  assumes "isDigit c \<or> c = CHR ''-''"
  shows "parseValue (Suc f) (c # cs) = parseNumber (c # cs)"
proof -
  have "c \<noteq> CHR ''n''" "c \<noteq> CHR ''t''" "c \<noteq> CHR ''f''" "c \<noteq> CHR 0x22"
    "c \<noteq> CHR ''[''" "c \<noteq> CHR ''{''"
    using assms by (auto simp: isDigit_def)
  then show ?thesis by simp
qed

lemma length_wrap:
  "parts \<noteq> [] \<Longrightarrow>
   length (wrap opening closing ind parts)
     = length opening + 1 + (ind + 2) + length (join parts ('','' @ newline @ pad (ind + 2)))
       + 1 + ind + length closing"
  by (simp add: wrap_def newline_def pad_def)

lemma parseValue_elemText:
  "isJSON v \<Longrightarrow> length (elemText ind v) \<le> f \<Longrightarrow> endsValue rest \<Longrightarrow>
     parseValue f (elemText ind v @ rest) = Some (v, rest)"
proof (induction v arbitrary: ind f rest rule: isJSON.induct)
  case 1
  then show ?case by simp
next
  case 2
  then obtain f' where "f = Suc f'" by (cases f) (auto simp: elemText_def)
  then show ?case by (simp add: elemText_def)
next
  case (3 b)
  then obtain f' where "f = Suc f'" by (cases f; cases b) (auto simp: elemText_def)
  then show ?case by (cases b) (simp_all add: elemText_def)
next
  case (4 n)
  then obtain i where n: "n = Num i" by (cases n) auto
  obtain c cs where c: "showInt i = c # cs" "isDigit c \<or> c = CHR ''-''"
    using showInt_start by blast
  from 4 n c obtain f' where f: "f = Suc f'" by (cases f) (auto simp: elemText_def)
  have "parseValue (Suc f') (showInt i @ rest) = parseNumber (showInt i @ rest)"
    using parseValue_start [OF c(2), of f' "cs @ rest"] c(1) by simp
  then show ?case
    using parseNumber_showInt [OF "4.prems"(3), of i] n f by (simp add: elemText_def)
next
  case (5 s)
  then obtain f' where f: "f = Suc f'" by (cases f) (auto simp: elemText_def quoteJSON_def)
  show ?case
    using parseString_quoted [of s rest] f by (simp add: elemText_def quoteJSON_def)
next
  case (6 xs)
  let ?i = "ind + 2"
  have t: "elemText ind (JArray xs) = wrap ''['' '']'' ind (map (elemText ?i) xs)"
    by (simp add: elemText_def serialize_array del: serialize.simps)
  show ?case
  proof (cases "xs = []")
    case True
    with 6 t obtain f' where "f = Suc f'" by (cases f) (auto simp: wrap_def)
    then show ?thesis using True t by (simp add: wrap_def skipWs_def isJsonSpace_def)
  next
    case False
    let ?j = "join (map (elemText ?i) xs) (separator ?i)"
    have w: "wrap ''['' '']'' ind (map (elemText ?i) xs)
             = CHR ''['' # newline @ pad ?i @ ?j @ newline @ pad ind @ '']''"
      using False by (simp add: wrap_def separator_def)
    have l: "length ?j + 2 \<le> length (elemText ind (JArray xs))"
      unfolding t w by simp
    with "6.prems"(2) obtain f' where f: "f = Suc f'" and lf: "length ?j < f'"
      by (cases f) auto
    have ih: "parseValue g (elemText ?i x @ R) = Some (x, R)"
      if "x \<in> set xs" "length (elemText ?i x) \<le> g" "endsValue R" for x g R
      using "6.IH" [OF that(1) _ that(2,3)] "6.prems"(1) that(1)
      by (simp add: list_all_iff)
    have pe: "parseElements f' (?j @ newline @ pad ind @ CHR '']'' # rest) = Some (xs, rest)"
      by (rule parseElements_joined [OF ih False lf])
    obtain c cs where c: "elemText ?i (hd xs) = c # cs" "valueStart c"
      using elemText_start by blast
    then obtain cs' where js: "?j = c # cs'"
      using join_start [of xs "elemText ?i" c "separator ?i"] False by blast
    have nb: "\<not> isJsonSpace c" "c \<noteq> CHR '']''" using valueStart_not [OF c(2)] by simp_all
    have sk: "skipWs (newline @ pad ?i @ ?j @ newline @ pad ind @ CHR '']'' # rest)
              = ?j @ newline @ pad ind @ CHR '']'' # rest"
      using skipWs_newline_pad [OF nb(1), of ?i] js by simp
    have "parseValue (Suc f') (CHR ''['' # newline @ pad ?i @ ?j @ newline @ pad ind
                                 @ CHR '']'' # rest) = Some (JArray xs, rest)"
      using sk pe js nb(2) by simp
    then show ?thesis using f t w by simp
  qed
next
  case (7 kvs)
  let ?i = "ind + 2"
  have vals: "list_all (\<lambda>(k, v). isJSON v) kvs"
    and canon: "foldl (\<lambda>obj (k, v). objSet obj k v) [] kvs = kvs"
    using "7.prems"(1) by simp_all
  have t: "elemText ind (JObject kvs) = wrap ''{'' ''}'' ind (map (memberText ?i) kvs)"
    using serialize_object [OF vals, of ind] by (simp add: elemText_def del: serialize.simps)
  show ?case
  proof (cases "kvs = []")
    case True
    with 7 t obtain f' where "f = Suc f'" by (cases f) (auto simp: wrap_def)
    then show ?thesis using True t by (simp add: wrap_def skipWs_def isJsonSpace_def)
  next
    case False
    let ?j = "join (map (memberText ?i) kvs) (separator ?i)"
    have w: "wrap ''{'' ''}'' ind (map (memberText ?i) kvs)
             = CHR ''{'' # newline @ pad ?i @ ?j @ newline @ pad ind @ ''}''"
      using False by (simp add: wrap_def separator_def)
    have l: "length ?j + 2 \<le> length (elemText ind (JObject kvs))"
      unfolding t w by simp
    with "7.prems"(2) obtain f' where f: "f = Suc f'" and lf: "length ?j < f'"
      by (cases f) auto
    have ih: "parseValue g (elemText ?i v @ R) = Some (v, R)"
      if "(k, v) \<in> set kvs" "length (elemText ?i v) \<le> g" "endsValue R" for k v g R
    proof -
      have "isJSON v" using vals that(1) by (auto simp: list_all_iff)
      from "7.IH" [OF that(1) refl this that(2,3)] show ?thesis .
    qed
    have pm: "parseMembers f' [] (?j @ newline @ pad ind @ CHR ''}'' # rest)
              = Some (foldl (\<lambda>obj (k, v). objSet obj k v) [] kvs, rest)"
      by (rule parseMembers_joined [OF ih False lf])
    obtain cs where "memberText ?i (hd kvs) = CHR 0x22 # cs"
      using memberText_start by blast
    then obtain cs' where js: "?j = CHR 0x22 # cs'"
      using join_start [of kvs "memberText ?i" "CHR 0x22" "separator ?i"] False by blast
    have sk: "skipWs (newline @ pad ?i @ ?j @ newline @ pad ind @ CHR ''}'' # rest)
              = ?j @ newline @ pad ind @ CHR ''}'' # rest"
      using skipWs_newline_pad [of "CHR 0x22" ?i] js by (simp add: isJsonSpace_def)
    have "parseValue (Suc f') (CHR ''{'' # newline @ pad ?i @ ?j @ newline @ pad ind
                                 @ CHR ''}'' # rest) = Some (JObject kvs, rest)"
      using sk pm js canon by simp
    then show ?thesis using f t w by simp
  qed
qed

lemma parseJSON_stringify:
  assumes "isJSON D"
  shows "\<exists>out. stringify D = Some out \<and> parseJSON out = Some D"
proof -
  have "D \<noteq> JUndefined" using assms by auto
  then obtain out where out: "serialize 0 D = Some out"
    using serialize_None [of 0 D] by (cases "serialize 0 D") auto
  then have et: "elemText 0 D = out" by (simp add: elemText_def)
  obtain c cs where c: "out = c # cs" "valueStart c"
    using elemText_start [of 0 D] et by auto
  have "\<not> isJsonSpace c" using valueStart_not [OF c(2)] by simp
  then have sk: "skipWs out = out" using c(1) by (simp add: skipWs_def)
  have "parseValue (length out) (out @ []) = Some (D, [])"
    using parseValue_elemText [OF assms, of 0 "length out" "[]"] et endsValue_simps(1) by simp
  then have "parseJSON out = Some D"
    using sk by (simp add: parseJSON_def skipWs_def)
  with out show ?thesis by (simp add: stringify_def)
qed

text \<open>
  C3 (as amended). For every document \<open>D\<close> that a JSON text can stand for (it holds
  neither \<open>undefined\<close> nor \<open>NaN\<close>), and a data file that can be written,
  \<open>saveData\<close> returns \<open>true\<close> and both loaders then return \<open>D\<close>.
\<close>

theorem save_then_load:
  assumes "isJSON D" and "\<not> writeFails fs (filepath dataDir filename)"
  shows "\<exists>fs'. saveData dataDir fs filename D = (True, fs')
     \<and> loadData dataDir fs' filename = D
     \<and> loadAndDisplayData dataDir fs' filename = D"
proof -
  from parseJSON_stringify [OF assms(1)] obtain out
    where out: "stringify D = Some out" "parseJSON out = Some D" by blast
  let ?fs = "fs\<lparr>contents := (contents fs)(filepath dataDir filename \<mapsto> out)\<rparr>"
  have "saveData dataDir fs filename D = (True, ?fs)"
    using out(1) assms(2) by (simp add: saveData_def)
  moreover have "loadData dataDir ?fs filename = D"
    using out(2) by (simp add: loadData_def)
  moreover have "loadAndDisplayData dataDir ?fs filename = D"
    using out(2) by (simp add: loadAndDisplayData_def)
  ultimately show ?thesis by blast
qed

lemma isJSON_storedDocument: "isJSON storedDocument"
  by (simp add: storedDocument_def objSet_def isIndexKey_def arrayIndex_def isDigit_def)

theorem save_then_load_witness:
  "\<exists>fs'. saveData ''data'' emptyDisk ''publications.json'' storedDocument = (True, fs')
     \<and> loadData ''data'' fs' ''publications.json'' = storedDocument
     \<and> loadAndDisplayData ''data'' fs' ''publications.json'' = storedDocument"
proof -
  have w: "\<not> writeFails emptyDisk (filepath ''data'' ''publications.json'')"
    by (simp add: emptyDisk_def)
  show ?thesis by (rule save_then_load [OF isJSON_storedDocument w])
qed

lemma isJSON_editedDocument: "isJSON (editedDocument JNull)"
  by (simp add: editedDocument_def objSet_def isIndexKey_def arrayIndex_def isDigit_def)

lemma stringify_blank_year:
  "stringify (editedDocument (JNumber (parseInt (prompt [])))) = stringify (editedDocument JNull)"
  by (simp add: stringify_def editedDocument_def parseInt_def prompt_def trim_def Let_def)

text \<open>
  The claim as stated fails. When the operator leaves the year blank,
  \<open>addPublication\<close> stores \<open>parseInt('')\<close>, which is \<open>NaN\<close>, as the year of the
  new publication. \<open>saveData\<close> succeeds on that document and writes the year as
  \<open>null\<close>; what is loaded is the document with the year \<open>null\<close>, which is not the
  document that was saved.
\<close>

theorem save_then_load_counterexample:
  "fst (saveData ''data'' emptyDisk ''publications.json''
          (editedDocument (JNumber (parseInt (prompt [])))))
   \<and> loadData ''data''
        (snd (saveData ''data'' emptyDisk ''publications.json''
                (editedDocument (JNumber (parseInt (prompt []))))))
        ''publications.json''
      = editedDocument JNull
   \<and> editedDocument JNull \<noteq> editedDocument (JNumber (parseInt (prompt [])))"
proof -
  from parseJSON_stringify [OF isJSON_editedDocument] obtain out
    where out: "stringify (editedDocument JNull) = Some out"
      "parseJSON out = Some (editedDocument JNull)" by blast
  have s: "stringify (editedDocument (JNumber (parseInt (prompt [])))) = Some out"
    using out(1) stringify_blank_year by simp
  have "editedDocument JNull \<noteq> editedDocument (JNumber (parseInt (prompt [])))"
    by (simp add: editedDocument_def)
  then show ?thesis
    using s out(2) by (simp add: saveData_def loadData_def emptyDisk_def)
qed

subsection \<open>The render functions and their environment\<close>

lemma generateSitemap_date:
  "generateSitemap env = generateSitemap env' \<longleftrightarrow> currentDate env = currentDate env'"
proof
  assume eq: "generateSitemap env = generateSitemap env'"
  then have "length (generateSitemap env) = length (generateSitemap env')" by simp
  then have len: "length (currentDate env) = length (currentDate env')"
    by (simp add: generateSitemap_def urlEntry_def pages_def baseUrl_def)
  show "currentDate env = currentDate env'"
    using eq len by (simp add: generateSitemap_def urlEntry_def pages_def baseUrl_def)
next
  assume "currentDate env = currentDate env'"
  then show "generateSitemap env = generateSitemap env'"
    by (simp add: generateSitemap_def urlEntry_def pages_def)
qed

text \<open>
  C2 (as amended). The publication, resource and activity HTML and the structured data
  do not depend on the environment: two runs on the same document give the same text.
  The news HTML is the same in two runs that format the item's date alike. The sitemap
  takes no document; two runs give the same sitemap exactly when they run on the same
  date.
\<close>

theorem render_functions_environment:
  "generatePublicationHTML env pub = generatePublicationHTML env' pub
   \<and> generateResourceHTML env resources = generateResourceHTML env' resources
   \<and> generateActivityHTML env activitySect = generateActivityHTML env' activitySect
   \<and> generateStructuredData env personal publicationsFile
       = generateStructuredData env' personal publicationsFile
   \<and> (toLocaleDateString env (news_date item) = toLocaleDateString env' (news_date item) \<longrightarrow>
        generateNewsHTML env item = generateNewsHTML env' item)
   \<and> (generateSitemap env = generateSitemap env' \<longleftrightarrow> currentDate env = currentDate env')"
proof -
  have 1: "generatePublicationHTML env pub = generatePublicationHTML env' pub"
    by (simp add: generatePublicationHTML_def)
  have 2: "generateResourceHTML env resources = generateResourceHTML env' resources"
    by (simp add: generateResourceHTML_def)
  have 3: "generateActivityHTML env activitySect = generateActivityHTML env' activitySect"
    by (simp add: generateActivityHTML_def)
  have 4: "generateStructuredData env personal publicationsFile
       = generateStructuredData env' personal publicationsFile"
    by (simp add: generateStructuredData_def)
  have 5: "toLocaleDateString env (news_date item) = toLocaleDateString env' (news_date item) \<longrightarrow>
        generateNewsHTML env item = generateNewsHTML env' item"
    by (simp add: generateNewsHTML_def)
  from 1 2 3 4 5 generateSitemap_date [of env env'] show ?thesis by blast
qed

theorem render_functions_environment_witness:
  "generateNewsHTML juneFirst conferenceNews = generateNewsHTML otherZone conferenceNews
   \<and> generateSitemap juneFirst = generateSitemap otherZone"
proof -
  have a: "toLocaleDateString juneFirst (news_date conferenceNews)
           = toLocaleDateString otherZone (news_date conferenceNews)"
    by (simp add: juneFirst_def otherZone_def conferenceNews_def)
  have b: "currentDate juneFirst = currentDate otherZone"
    by (simp add: juneFirst_def otherZone_def)
  from render_functions_environment [of juneFirst _ otherZone _ _ _ _ conferenceNews] a b
  show ?thesis by blast
qed

text \<open>
  The claim as stated fails for the sitemap: a run on 2025-06-01 and a run on
  2025-06-02 give different texts (the \<open>lastmod\<close> lines).
\<close>

theorem generateSitemap_counterexample:
  "generateSitemap juneFirst \<noteq> generateSitemap juneSecond"
  by (simp add: generateSitemap_date juneFirst_def juneSecond_def)

subsection \<open>The rules of the validator\<close>

lemma digits_then_rest:
  assumes "list_all isDigit u" "list_all isDigit v"
    and "case x of [] \<Rightarrow> True | c # cs \<Rightarrow> \<not> isDigit c"
    and "case y of [] \<Rightarrow> True | c # cs \<Rightarrow> \<not> isDigit c"
  shows "u @ x = v @ y \<longleftrightarrow> u = v \<and> x = y"
proof
  assume eq: "u @ x = v @ y"
  have "takeWhile isDigit (u @ x) = u" "dropWhile isDigit (u @ x) = x"
    using takeWhile_run [OF assms(1,3)] by simp_all
  moreover have "takeWhile isDigit (v @ y) = v" "dropWhile isDigit (v @ y) = y"
    using takeWhile_run [OF assms(2,4)] by simp_all
  ultimately show "u = v \<and> x = y" using eq by simp
qed simp

lemma showNat_inj: "showNat a = showNat b \<longleftrightarrow> a = b"
proof
  assume "showNat a = showNat b"
  then have "radixValue 10 (showNat a) = radixValue 10 (showNat b)" by (rule arg_cong)
  then show "a = b" by (simp only: showNat_value)
qed simp

lemma label_message_eq:
  assumes "case x of [] \<Rightarrow> True | c # cs \<Rightarrow> \<not> isDigit c"
    and "case y of [] \<Rightarrow> True | c # cs \<Rightarrow> \<not> isDigit c"
  shows "publicationLabel i @ x = publicationLabel j @ y \<longleftrightarrow> i = j \<and> x = y"
  using digits_then_rest [OF showNat_digits showNat_digits assms, of "i + 1" "j + 1"]
  by (simp add: publicationLabel_def showNat_inj)

lemma count_validatePublication_doi:
  "count_list (validatePublication cy j pub) (publicationLabel i @ '': Invalid DOI format'')
     = (if j = i \<and> doiMalformed pub then 1 else 0)"
proof -
  have nd: "\<not> isDigit (CHR '':'')" by (simp add: isDigit_def)
  have a: "publicationLabel j @ '': Missing title or authors''
           \<noteq> publicationLabel i @ '': Invalid DOI format''"
    using label_message_eq [of "'': Missing title or authors''" "'': Invalid DOI format''" j i] nd
    by simp
  have b: "publicationLabel j @ '': Invalid year'' \<noteq> publicationLabel i @ '': Invalid DOI format''"
    using label_message_eq [of "'': Invalid year''" "'': Invalid DOI format''" j i] nd by simp
  have c: "publicationLabel j @ '': Invalid DOI format''
             = publicationLabel i @ '': Invalid DOI format'' \<longleftrightarrow> j = i"
    using label_message_eq [of "'': Invalid DOI format''" "'': Invalid DOI format''" j i] nd
    by simp
  show ?thesis
    using a b c by (simp add: validatePublication_def doiMalformed_def)
qed

lemma count_validatePublication_year:
  "count_list (validatePublication cy j pub) (publicationLabel i @ '': Invalid year'')
     = (if j = i \<and> yearOutOfRange cy (year pub) then 1 else 0)"
proof -
  have nd: "\<not> isDigit (CHR '':'')" by (simp add: isDigit_def)
  have a: "publicationLabel j @ '': Missing title or authors''
           \<noteq> publicationLabel i @ '': Invalid year''"
    using label_message_eq [of "'': Missing title or authors''" "'': Invalid year''" j i] nd
    by simp
  have b: "publicationLabel j @ '': Invalid DOI format'' \<noteq> publicationLabel i @ '': Invalid year''"
    using label_message_eq [of "'': Invalid DOI format''" "'': Invalid year''" j i] nd by simp
  have c: "publicationLabel j @ '': Invalid year''
             = publicationLabel i @ '': Invalid year'' \<longleftrightarrow> j = i"
    using label_message_eq [of "'': Invalid year''" "'': Invalid year''" j i] nd
    by simp
  show ?thesis
    using a b c by (simp add: validatePublication_def)
qed

lemma count_concat_enumerate:
  assumes "\<And>j p. count_list (f j p) m = (if j = i \<and> P p then 1 else 0)"
  shows "count_list (concat (map (\<lambda>(j, p). f j p) (enumerate n ps))) m
     = (if n \<le> i \<and> i < n + length ps \<and> P (ps ! (i - n)) then 1 else 0)"
proof (induction ps arbitrary: n)
  case Nil
  show ?case by simp
next
  case (Cons p ps)
  show ?case
  proof (cases "i = n")
    case True
    then show ?thesis using Cons [of "Suc n"] assms by simp
  next
    case False
    then have "(i - n) = Suc (i - Suc n) \<or> i < n" by arith
    then show ?thesis using Cons [of "Suc n"] assms False by auto
  qed
qed


lemma label_starts: "\<exists>cs. publicationLabel i @ s = CHR ''P'' # cs"
  by (simp add: publicationLabel_def)

lemma validatePublication_starts:
  "m \<in> set (validatePublication cy j pub) \<Longrightarrow> \<exists>cs. m = CHR ''P'' # cs"
  using label_starts by (auto simp: validatePublication_def split: if_splits)

lemma publication_issues_start:
  "m \<in> set (concat (map (\<lambda>(j, p). validatePublication cy j p) (enumerate n ps))) \<Longrightarrow>
     \<exists>cs. m = CHR ''P'' # cs"
  using validatePublication_starts by auto

lemma validateAcademicData_shape:
  "\<exists>personalIssues dups.
     validateAcademicData cy (Some pd) (Some d)
       = personalIssues
         @ concat (map (\<lambda>(j, p). validatePublication cy j p) (enumerate 0 (publications d)))
         @ dups
     \<and> (personalIssues = [] \<or> personalIssues = [''Missing required personal information''])
     \<and> (dups = [] \<or> (\<exists>t. dups = [''Duplicate publications found: '' @ t]))
     \<and> (\<forall>ts. lowerTitles (publications d) = Some ts \<longrightarrow> duplicatesOf ts \<noteq> [] \<longrightarrow> dups \<noteq> [])"
proof -
  define personalIssues where "personalIssues =
    (if \<not> truthyStr (person_name pd) \<or> \<not> truthyStr (person_title pd)
     then [''Missing required personal information''] else [])"
  define dups where "dups =
    (case lowerTitles (publications d) of
       None \<Rightarrow> []
     | Some ts \<Rightarrow>
         if duplicatesOf ts \<noteq> []
         then [''Duplicate publications found: '' @ join (duplicatesOf ts) '', ''] else [])"
  have 1: "validateAcademicData cy (Some pd) (Some d)
       = personalIssues
         @ concat (map (\<lambda>(j, p). validatePublication cy j p) (enumerate 0 (publications d)))
         @ dups"
    by (simp add: validateAcademicData_def Let_def personalIssues_def dups_def
        split: option.splits)
  have 2: "personalIssues = [] \<or> personalIssues = [''Missing required personal information'']"
    by (simp add: personalIssues_def)
  have 3: "dups = [] \<or> (\<exists>t. dups = [''Duplicate publications found: '' @ t])"
    unfolding dups_def by (cases "lowerTitles (publications d)") auto
  have 4: "\<forall>ts. lowerTitles (publications d) = Some ts \<longrightarrow> duplicatesOf ts \<noteq> [] \<longrightarrow> dups \<noteq> []"
    by (simp add: dups_def)
  from 1 2 3 4 show ?thesis by blast
qed

lemma length_takeWhile_stop:
  assumes "j < length xs" and "\<not> P (xs ! j)"
  shows "length (takeWhile P xs) \<le> j"
proof (rule ccontr)
  assume "\<not> length (takeWhile P xs) \<le> j"
  then have lt: "j < length (takeWhile P xs)" by simp
  then have "takeWhile P xs ! j = xs ! j" by (rule takeWhile_nth)
  moreover have "takeWhile P xs ! j \<in> set (takeWhile P xs)" using lt by simp
  ultimately have "P (xs ! j)" using set_takeWhileD [of "xs ! j" P xs] by simp
  with assms(2) show False by simp
qed

lemma count_issue:
  assumes "\<And>j p. count_list (validatePublication cy j p) (publicationLabel i @ s)
                    = (if j = i \<and> P p then 1 else 0)"
    and "i < length (publications d)" and "P (publications d ! i)"
  shows "count_list (validateAcademicData cy (Some pd) (Some d)) (publicationLabel i @ s) = 1"
proof -
  obtain personalIssues dups where sh:
    "validateAcademicData cy (Some pd) (Some d)
       = personalIssues
         @ concat (map (\<lambda>(j, p). validatePublication cy j p) (enumerate 0 (publications d)))
         @ dups"
    "personalIssues = [] \<or> personalIssues = [''Missing required personal information'']"
    "dups = [] \<or> (\<exists>t. dups = [''Duplicate publications found: '' @ t])"
    using validateAcademicData_shape [of cy pd d] by blast
  obtain cs where cs: "publicationLabel i @ s = CHR ''P'' # cs" using label_starts by blast
  have 1: "count_list personalIssues (publicationLabel i @ s) = 0"
    using sh(2) cs by auto
  have 2: "count_list dups (publicationLabel i @ s) = 0"
    using sh(3) cs by auto
  have 3: "count_list (concat (map (\<lambda>(j, p). validatePublication cy j p)
              (enumerate 0 (publications d)))) (publicationLabel i @ s) = 1"
    using count_concat_enumerate [of "validatePublication cy" "publicationLabel i @ s" i P 0
        "publications d", OF assms(1)] assms(2,3) by simp
  show ?thesis unfolding sh(1) using 1 2 3 by simp
qed

text \<open>
  The DOI rule: a publication whose \<open>doi\<close> is \<open>abc\<close> gets exactly one
  \<open>Invalid DOI format\<close> issue, whatever else the collection holds.
\<close>

theorem doi_format_issue_once:
  assumes "i < length (publications d)" and "doi (publications d ! i) = Some ''abc''"
  shows "count_list (validateAcademicData currentYear (Some personal) (Some d))
           (publicationLabel i @ '': Invalid DOI format'') = 1"
proof -
  have "doiMalformed (publications d ! i)" using assms(2) by (simp add: doiMalformed_def)
  from count_issue [of currentYear i "'': Invalid DOI format''" doiMalformed d personal,
      OF count_validatePublication_doi assms(1) this]
  show ?thesis .
qed

theorem doi_format_issue_once_witness:
  "count_list (validateAcademicData 2025 (Some siteOwner)
      (Some \<lparr>publications = [goodPaper (Some ''Paper A''), abcPaper],
             statistics = noStatistics\<rparr>))
     (publicationLabel 1 @ '': Invalid DOI format'') = 1"
  by (rule doi_format_issue_once) (simp_all add: abcPaper_def)

text \<open>
  The year rule: a publication whose \<open>year\<close> is 1850 gets exactly one
  \<open>Invalid year\<close> issue.
\<close>

theorem year_range_issue_once:
  assumes "i < length (publications d)" and "year (publications d ! i) = Some (Num 1850)"
  shows "count_list (validateAcademicData currentYear (Some personal) (Some d))
           (publicationLabel i @ '': Invalid year'') = 1"
proof -
  have "yearOutOfRange currentYear (year (publications d ! i))"
    using assms(2) by (simp add: yearOutOfRange_def)
  from count_issue [of currentYear i "'': Invalid year''"
      "\<lambda>p. yearOutOfRange currentYear (year p)" d personal,
      OF count_validatePublication_year assms(1) this]
  show ?thesis .
qed

theorem year_range_issue_once_witness:
  "count_list (validateAcademicData 2025 (Some siteOwner)
      (Some \<lparr>publications = [oldPaper, goodPaper (Some ''Paper A'')],
             statistics = noStatistics\<rparr>))
     (publicationLabel 0 @ '': Invalid year'') = 1"
  by (rule year_range_issue_once) (simp_all add: oldPaper_def)

lemma duplicatesOf_nonempty:
  assumes "\<not> distinct ts"
  shows "duplicatesOf ts \<noteq> []"
proof -
  from assms obtain i j where ij: "i < length ts" "j < length ts" "i \<noteq> j" "ts ! i = ts ! j"
    by (auto simp: distinct_conv_nth)
  define a where "a = min i j"
  define b where "b = max i j"
  have ab: "a < b" "b < length ts" "ts ! a = ts ! b"
    using ij by (auto simp: a_def b_def min_def max_def)
  have "length (takeWhile (\<lambda>y. y \<noteq> ts ! b) ts) \<le> a"
    using ab by (intro length_takeWhile_stop) auto
  then have "indexOf ts (ts ! b) \<noteq> int b"
    using ab by (simp add: indexOf_def)
  moreover have "(b, ts ! b) \<in> set (enumerate 0 ts)"
    using ab(2) by (simp add: in_set_enumerate_eq)
  ultimately have "(b, ts ! b) \<in> set (filter (\<lambda>(index, title). indexOf ts title \<noteq> int index)
                                     (enumerate 0 ts))"
    by simp
  then show ?thesis unfolding duplicatesOf_def by (auto simp: filter_empty_conv)
qed

text \<open>
  The duplicate rule, when every publication has a title: if two publications have the
  same title up to letter case, exactly one issue reports duplicates.
\<close>

theorem duplicate_issue_once:
  assumes "lowerTitles (publications d) = Some ts" and "\<not> distinct ts"
  shows "\<exists>t. filter (prefix ''Duplicate publications found: '')
               (validateAcademicData currentYear (Some personal) (Some d))
             = [''Duplicate publications found: '' @ t]"
proof -
  obtain personalIssues dups where sh:
    "validateAcademicData currentYear (Some personal) (Some d)
       = personalIssues
         @ concat (map (\<lambda>(j, p). validatePublication currentYear j p)
             (enumerate 0 (publications d)))
         @ dups"
    "personalIssues = [] \<or> personalIssues = [''Missing required personal information'']"
    "dups = [] \<or> (\<exists>t. dups = [''Duplicate publications found: '' @ t])"
    "\<forall>ts. lowerTitles (publications d) = Some ts \<longrightarrow> duplicatesOf ts \<noteq> [] \<longrightarrow> dups \<noteq> []"
    using validateAcademicData_shape [of currentYear personal d] by blast
  from sh(3,4) assms duplicatesOf_nonempty [OF assms(2)]
  obtain t where t: "dups = [''Duplicate publications found: '' @ t]" by blast
  have 1: "filter (prefix ''Duplicate publications found: '') personalIssues = []"
    using sh(2) by auto
  have 2: "filter (prefix ''Duplicate publications found: '')
             (concat (map (\<lambda>(j, p). validatePublication currentYear j p)
                (enumerate 0 (publications d)))) = []"
  proof -
    have "\<not> prefix ''Duplicate publications found: '' m"
      if "m \<in> set (concat (map (\<lambda>(j, p). validatePublication currentYear j p)
                (enumerate 0 (publications d))))" for m
    proof -
      from publication_issues_start [OF that] obtain cs where "m = CHR ''P'' # cs" by blast
      then show ?thesis by simp
    qed
    then show ?thesis unfolding filter_empty_conv by blast
  qed
  show ?thesis unfolding sh(1) using 1 2 t by simp
qed

theorem duplicate_issue_once_witness:
  "\<exists>t. filter (prefix ''Duplicate publications found: '')
         (validateAcademicData 2025 (Some siteOwner)
            (Some \<lparr>publications = [goodPaper (Some ''Paper A''), goodPaper (Some ''paper a'')],
                   statistics = noStatistics\<rparr>))
       = [''Duplicate publications found: '' @ t]"
proof -
  have a: "lowerTitles (publications
             \<lparr>publications = [goodPaper (Some ''Paper A''), goodPaper (Some ''paper a'')],
              statistics = noStatistics\<rparr>) = Some [''paper a'', ''paper a'']"
    by (simp add: lowerTitles_def goodPaper_def toLowerCase_def lowerChar_def)
  have b: "\<not> distinct [''paper a'', ''paper a'']" by simp
  show ?thesis by (rule duplicate_issue_once [OF a b])
qed

text \<open>
  A year that is not a number does not survive the data store: \<open>NaN\<close> is written as
  \<open>null\<close>, and \<open>null\<close> is what is loaded.
\<close>

theorem nan_year_loaded_as_null:
  "\<exists>fs'. saveData ''data'' emptyDisk ''publications.json'' (JObject [(''year'', JNumber NaN)])
           = (True, fs')
     \<and> loadData ''data'' fs' ''publications.json'' = JObject [(''year'', JNull)]"
  by (simp add: saveData_def loadData_def stringify_def wrap_def emptyDisk_def parseJSON_def
      skipWs_def isJsonSpace_def newline_def pad_def quoteJSON_def quoteChar_def objSet_def
      isIndexKey_def arrayIndex_def isDigit_def)


end
